theory Spec2Isabelle
  imports Complex_Main "HOL-Library.AList"
begin

section \<open>Values shared by the actors\<close>

text \<open>
  Python floats are modelled by their mathematical value: every finite binary64 number is
  a rational, and the three non-finite values are kept apart because comparisons treat
  them specially (every comparison with NaN is false).
\<close>

datatype pyfloat = Fin rat | PosInf | NegInf | NaN

fun float_le :: "pyfloat \<Rightarrow> pyfloat \<Rightarrow> bool" where
  "float_le NaN y = False"
| "float_le x NaN = False"
| "float_le NegInf y = True"
| "float_le x PosInf = True"
| "float_le (Fin a) (Fin b) = (a \<le> b)"
| "float_le x y = False"

text \<open>
  Instants (\<open>datetime\<close> values) are counted in microseconds, the resolution of
  \<open>datetime\<close> and \<open>timedelta\<close>. All readings of \<open>datetime.now()\<close> made
  while one handler runs are taken as the single instant passed to the handler.
\<close>

type_synonym time = int

datatype exc =
    KeyError string
  | AttributeError string
  | ValidationError "string list"
  | CancelledError
  | OtherException string

datatype 'a outcome = Returned 'a | Raised exc

section \<open>Settings (config/settings.py)\<close>

definition MODE_HISTORY_SIZE :: nat where
  "MODE_HISTORY_SIZE = 5"

definition PYDANTIC_CONFIDENCE_MIN :: rat where
  "PYDANTIC_CONFIDENCE_MIN = 0"

definition PYDANTIC_CONFIDENCE_MAX :: rat where
  "PYDANTIC_CONFIDENCE_MAX = 1"

definition PYDANTIC_MODE_HISTORY_MAX_SIZE :: nat where
  "PYDANTIC_MODE_HISTORY_MAX_SIZE = 10"

definition PYDANTIC_CACHE_METRICS_MAX_SIZE :: nat where
  "PYDANTIC_CACHE_METRICS_MAX_SIZE = 100"

definition STM_BUFFER_SIZE :: nat where
  "STM_BUFFER_SIZE = 50"

definition STM_CONTEXT_SIZE_FOR_GENERATION :: int where
  "STM_CONTEXT_SIZE_FOR_GENERATION = 20"

text \<open>The timeout is given in seconds.\<close>

definition STM_CONTEXT_REQUEST_TIMEOUT :: int where
  "STM_CONTEXT_REQUEST_TIMEOUT = 30"

section \<open>UserSession (actors/user\_session\_actor.py)\<close>

text \<open>
  The pydantic model with its validated fields. The three \<open>Optional[Any]\<close> extension
  fields (\<open>emotional_state\<close>, \<open>style_vector\<close>, \<open>memory_buffer\<close>) are never read or
  written by the actor and are left out.
\<close>

record UserSession =
  user_id :: string
  username :: "string option"
  message_count :: int
  created_at :: time
  last_activity :: time
  cache_metrics :: "pyfloat list"
  current_mode :: string
  mode_confidence :: pyfloat
  mode_history :: "string list"
  last_mode_change :: "time option"

definition valid_modes :: "string list" where
  "valid_modes = [''talk'', ''expert'', ''creative'', ''base'']"

text \<open>
  The field validators. A validator either raises (\<open>Inl\<close> names the field) or returns
  the value that is stored. \<open>v[-n:]\<close> keeps the last \<open>n\<close> elements.
\<close>

definition last_n :: "nat \<Rightarrow> 'a list \<Rightarrow> 'a list" where
  "last_n n xs = drop (length xs - n) xs"

definition validate_confidence :: "pyfloat \<Rightarrow> string + pyfloat" where
  "validate_confidence v =
     (if \<not> (float_le (Fin PYDANTIC_CONFIDENCE_MIN) v \<and> float_le v (Fin PYDANTIC_CONFIDENCE_MAX))
      then Inl ''mode_confidence'' else Inr v)"

definition validate_mode :: "string \<Rightarrow> string + string" where
  "validate_mode v = (if v \<notin> set valid_modes then Inl ''current_mode'' else Inr v)"

definition validate_mode_history_size :: "string list \<Rightarrow> string list" where
  "validate_mode_history_size v =
     (if length v > PYDANTIC_MODE_HISTORY_MAX_SIZE
      then last_n PYDANTIC_MODE_HISTORY_MAX_SIZE v else v)"

definition validate_cache_metrics_size :: "pyfloat list \<Rightarrow> pyfloat list" where
  "validate_cache_metrics_size v =
     (if length v > PYDANTIC_CACHE_METRICS_MAX_SIZE
      then last_n PYDANTIC_CACHE_METRICS_MAX_SIZE v else v)"

text \<open>
  Construction \<open>UserSession(**kwargs)\<close>. A keyword that is not passed takes the field's
  default, which pydantic does not validate; the two \<open>default_factory\<close> timestamps read
  the clock. Every passed field is validated and the failures are reported together, in
  field order, in one validation error.
\<close>

record UserSession_kwargs =
  kw_user_id :: string
  kw_username :: "string option"
  kw_message_count :: "int option"
  kw_created_at :: "time option"
  kw_last_activity :: "time option"
  kw_cache_metrics :: "pyfloat list option"
  kw_current_mode :: "string option"
  kw_mode_confidence :: "pyfloat option"
  kw_mode_history :: "string list option"
  kw_last_mode_change :: "time option"

definition field_errors :: "UserSession_kwargs \<Rightarrow> string list" where
  "field_errors kw =
     (case kw_current_mode kw of None \<Rightarrow> []
      | Some m \<Rightarrow> (case validate_mode m of Inl f \<Rightarrow> [f] | Inr _ \<Rightarrow> []))
     @
     (case kw_mode_confidence kw of None \<Rightarrow> []
      | Some c \<Rightarrow> (case validate_confidence c of Inl f \<Rightarrow> [f] | Inr _ \<Rightarrow> []))"

definition UserSession_init :: "time \<Rightarrow> UserSession_kwargs \<Rightarrow> exc + UserSession" where
  "UserSession_init now kw =
     (if field_errors kw \<noteq> [] then Inl (ValidationError (field_errors kw))
      else Inr \<lparr>
        user_id = kw_user_id kw,
        username = kw_username kw,
        message_count = (case kw_message_count kw of None \<Rightarrow> 0 | Some n \<Rightarrow> n),
        created_at = (case kw_created_at kw of None \<Rightarrow> now | Some t \<Rightarrow> t),
        last_activity = (case kw_last_activity kw of None \<Rightarrow> now | Some t \<Rightarrow> t),
        cache_metrics =
          (case kw_cache_metrics kw of None \<Rightarrow> [] | Some v \<Rightarrow> validate_cache_metrics_size v),
        current_mode = (case kw_current_mode kw of None \<Rightarrow> ''talk'' | Some m \<Rightarrow> m),
        mode_confidence = (case kw_mode_confidence kw of None \<Rightarrow> Fin 0 | Some c \<Rightarrow> c),
        mode_history =
          (case kw_mode_history kw of None \<Rightarrow> [] | Some v \<Rightarrow> validate_mode_history_size v),
        last_mode_change = kw_last_mode_change kw \<rparr>)"

text \<open>
  Attribute assignment with \<open>validate_assignment=True\<close>: the assigned field is
  validated; on failure the error is raised and the session keeps its old value.
\<close>

datatype assignment =
    Set_username "string option"
  | Set_message_count int
  | Set_last_activity time
  | Set_cache_metrics "pyfloat list"
  | Set_current_mode string
  | Set_mode_confidence pyfloat
  | Set_mode_history "string list"
  | Set_last_mode_change "time option"

fun setattr :: "UserSession \<Rightarrow> assignment \<Rightarrow> exc + UserSession" where
  "setattr s (Set_username v) = Inr (s\<lparr>username := v\<rparr>)"
| "setattr s (Set_message_count v) = Inr (s\<lparr>message_count := v\<rparr>)"
| "setattr s (Set_last_activity v) = Inr (s\<lparr>last_activity := v\<rparr>)"
| "setattr s (Set_cache_metrics v) = Inr (s\<lparr>cache_metrics := validate_cache_metrics_size v\<rparr>)"
| "setattr s (Set_current_mode v) =
     (case validate_mode v of
        Inl f \<Rightarrow> Inl (ValidationError [f])
      | Inr m \<Rightarrow> Inr (s\<lparr>current_mode := m\<rparr>))"
| "setattr s (Set_mode_confidence v) =
     (case validate_confidence v of
        Inl f \<Rightarrow> Inl (ValidationError [f])
      | Inr c \<Rightarrow> Inr (s\<lparr>mode_confidence := c\<rparr>))"
| "setattr s (Set_mode_history v) = Inr (s\<lparr>mode_history := validate_mode_history_size v\<rparr>)"
| "setattr s (Set_last_mode_change v) = Inr (s\<lparr>last_mode_change := v\<rparr>)"

text \<open>The two conditions a session has to satisfy.\<close>

definition confidence_in_range :: "pyfloat \<Rightarrow> bool" where
  "confidence_in_range v =
     (case v of Fin r \<Rightarrow> PYDANTIC_CONFIDENCE_MIN \<le> r \<and> r \<le> PYDANTIC_CONFIDENCE_MAX
      | _ \<Rightarrow> False)"

definition session_ok :: "UserSession \<Rightarrow> bool" where
  "session_ok s = (current_mode s \<in> set valid_modes \<and> confidence_in_range (mode_confidence s))"

definition kwargs_ok :: "UserSession_kwargs \<Rightarrow> bool" where
  "kwargs_ok kw =
     ((case kw_current_mode kw of None \<Rightarrow> True | Some m \<Rightarrow> m \<in> set valid_modes) \<and>
      (case kw_mode_confidence kw of None \<Rightarrow> True | Some c \<Rightarrow> confidence_in_range c))"

fun assignment_ok :: "assignment \<Rightarrow> bool" where
  "assignment_ok (Set_current_mode v) = (v \<in> set valid_modes)"
| "assignment_ok (Set_mode_confidence v) = confidence_in_range v"
| "assignment_ok a = True"

section \<open>Messages\<close>

text \<open>
  Modelled from the spec: the catalog \<open>MESSAGE_TYPES\<close> and the class \<open>ActorMessage\<close>
  live in actors/messages.py, which is not among the sources. The catalog is closed and
  process-wide (section 6 of the specification); its entries are the ones the sources and
  tests name, and \<open>Other_type s\<close> is a type string \<open>s\<close> that is no entry of the catalog,
  such as the \<open>"unknown_type"\<close> of the tests.
\<close>

datatype message_type =
    USER_MESSAGE
  | CACHE_HIT_METRIC
  | BOT_RESPONSE
  | CONTEXT_RESPONSE
  | GENERATE_RESPONSE
  | STORE_MEMORY
  | GET_CONTEXT
  | CLEAR_USER_MEMORY
  | Other_type string


text \<open>
  A payload is a dictionary; a key that is absent reads as \<open>None\<close>. The values carry the
  types that the producers in this repository give them. One message of a conversation
  history is a role with its content; a timestamp string is either the ISO rendering of
  an instant or a string that came with a message.
\<close>

type_synonym ctx_msg = "string \<times> string"

datatype stamp = Iso time | Given string

record session_data =
  sd_username :: "string option"
  sd_created_at :: stamp

record payload =
  pl_user_id :: "string option"
  pl_username :: "string option"
  pl_chat_id :: "int option"
  pl_text :: "string option"
  pl_request_id :: "string option"
  pl_messages :: "ctx_msg list option"
  pl_cache_hit_rate :: "pyfloat option"
  pl_generated_at :: "string option"
  pl_message_type :: "string option"
  pl_content :: "string option"
  pl_metadata :: "(string \<times> stamp option) list option"
  pl_limit :: "int option"
  pl_format_type :: "string option"
  pl_include_prompt :: "bool option"
  pl_message_count :: "int option"
  pl_session_data :: "session_data option"
  pl_mode :: "string option"
  pl_mode_confidence :: "pyfloat option"
  pl_historical_context :: "ctx_msg list option"
  pl_degraded_mode :: "bool option"
  pl_context :: "ctx_msg list option"
  pl_total_messages :: "int option"

definition empty_payload :: payload where
  "empty_payload = \<lparr>
     pl_user_id = None, pl_username = None, pl_chat_id = None, pl_text = None,
     pl_request_id = None, pl_messages = None, pl_cache_hit_rate = None,
     pl_generated_at = None, pl_message_type = None, pl_content = None,
     pl_metadata = None, pl_limit = None, pl_format_type = None,
     pl_include_prompt = None, pl_message_count = None, pl_session_data = None,
     pl_mode = None, pl_mode_confidence = None, pl_historical_context = None,
     pl_degraded_mode = None, pl_context = None, pl_total_messages = None \<rparr>"

text \<open>
  \<open>ActorMessage.create(sender_id, message_type, payload, reply_to=None)\<close> keeps the
  fields its caller passes; the identifier and the timestamp it adds are not modelled.
\<close>

record ActorMessage =
  sender_id :: string
  msg_type :: message_type
  msg_payload :: payload
  reply_to :: "string option"

definition create :: "string \<Rightarrow> message_type \<Rightarrow> payload \<Rightarrow> string option \<Rightarrow> ActorMessage" where
  "create sid t p r = \<lparr>sender_id = sid, msg_type = t, msg_payload = p, reply_to = r\<rparr>"

section \<open>UserSessionActor (actors/user\_session\_actor.py)\<close>

text \<open>
  An entry of \<open>_pending_requests\<close>: the dictionary that \<open>_handle_user_message\<close> saves
  under the request id.
\<close>

record pending =
  p_user_id :: string
  p_chat_id :: int
  p_text :: string
  p_include_prompt :: bool
  p_message_count :: int
  p_session_data :: session_data
  p_mode :: string
  p_mode_confidence :: pyfloat
  p_timestamp :: time

datatype log_entry = Info string | Warning string | Error string

text \<open>
  The actor's state. \<open>_pending_requests\<close> is a dictionary, which keeps its keys in
  insertion order: an association list with distinct keys. \<open>actor_system\<close> tells whether
  \<open>get_actor_system()\<close> yields a system. The calls the actor makes on collaborators
  that are outside the sources are recorded in the order they are made and return
  normally: \<open>sent\<close> holds the calls of \<open>send_message(target, message)\<close>,
  \<open>appended\<close> the stream and type of the events handed to \<open>_append_event\<close>, and
  \<open>logged\<close> the calls on the logger.
\<close>

record actor_state =
  sessions :: "string \<rightharpoonup> UserSession"
  pending_requests :: "(string \<times> pending) list"
  actor_system :: bool
  sent :: "(string \<times> ActorMessage) list"
  appended :: "(string \<times> string) list"
  logged :: "log_entry list"

definition actor_id :: string where
  "actor_id = ''user_session''"

definition send_message :: "string \<Rightarrow> ActorMessage \<Rightarrow> actor_state \<Rightarrow> actor_state" where
  "send_message target m st = st\<lparr>sent := sent st @ [(target, m)]\<rparr>"

definition append_event :: "string \<Rightarrow> string \<Rightarrow> actor_state \<Rightarrow> actor_state" where
  "append_event stream_id event_type st = st\<lparr>appended := appended st @ [(stream_id, event_type)]\<rparr>"

definition log_call :: "log_entry \<Rightarrow> actor_state \<Rightarrow> actor_state" where
  "log_call e st = st\<lparr>logged := logged st @ [e]\<rparr>"

text \<open>
  What a handler invocation reads from outside the actor's state: the clock, the
  identifier drawn by \<open>uuid.uuid4()\<close>, and the results of
  \<open>_determine_generation_mode\<close> and \<open>_should_include_prompt\<close>. The last two are
  computed from the tables of config/prompts.py, which is not among the sources, and
  by floating-point arithmetic; both are taken to return a result, which the handler
  only passes on. The debug event that the detection may schedule as a task of its own
  is not recorded.
\<close>

record env =
  env_now :: time
  env_uuid4 :: string
  env_detected :: "string \<times> pyfloat"
  env_include_prompt :: bool

text \<open>The payload of GENERATE\_RESPONSE, built from a saved entry and a history.\<close>

definition generate_payload :: "pending \<Rightarrow> ctx_msg list \<Rightarrow> payload" where
  "generate_payload p h = empty_payload\<lparr>
     pl_user_id := Some (p_user_id p),
     pl_chat_id := Some (p_chat_id p),
     pl_text := Some (p_text p),
     pl_include_prompt := Some (p_include_prompt p),
     pl_message_count := Some (p_message_count p),
     pl_session_data := Some (p_session_data p),
     pl_mode := Some (p_mode p),
     pl_mode_confidence := Some (p_mode_confidence p),
     pl_historical_context := Some h \<rparr>"

definition generate_msg :: "pending \<Rightarrow> ctx_msg list \<Rightarrow> ActorMessage" where
  "generate_msg p h = create actor_id GENERATE_RESPONSE (generate_payload p h) None"

subsection \<open>\_get\_or\_create\_session\<close>

definition get_or_create_session ::
  "time \<Rightarrow> string \<Rightarrow> string option \<Rightarrow> actor_state \<Rightarrow> actor_state \<times> UserSession outcome" where
  "get_or_create_session t uid uname st =
     (case sessions st uid of
        Some s \<Rightarrow> (st, Returned s)
      | None \<Rightarrow>
          (case UserSession_init t \<lparr>kw_user_id = uid, kw_username = uname,
                  kw_message_count = None, kw_created_at = None, kw_last_activity = None,
                  kw_cache_metrics = None, kw_current_mode = None, kw_mode_confidence = None,
                  kw_mode_history = None, kw_last_mode_change = None\<rparr> of
             Inl e \<Rightarrow> (st, Raised e)
           | Inr s \<Rightarrow>
               (log_call (Info ''Created new session'')
                  (append_event (''user_'' @ uid) ''SessionCreatedEvent''
                     (st\<lparr>sessions := (sessions st)(uid \<mapsto> s)\<rparr>)),
                Returned s)))"

subsection \<open>\_handle\_user\_message\<close>

text \<open>
  The session object is shared with the table \<open>_sessions\<close>, so each mutation of it is
  a mutation of the table, and what was done before an exception stays done.
  \<open>record_mode_change\<close> is the block "if new\_mode != session.current\_mode";
  \<open>push_mode_history\<close> is the append followed by \<open>pop(0)\<close> when the list has grown
  beyond \<open>MODE_HISTORY_SIZE\<close>.
\<close>

definition record_mode_change :: "time \<Rightarrow> string \<Rightarrow> UserSession \<Rightarrow> UserSession \<times> bool outcome" where
  "record_mode_change t new_mode s =
     (if new_mode \<noteq> current_mode s then
        (let s1 = s\<lparr>last_mode_change := Some t\<rparr> in
         case setattr s1 (Set_current_mode new_mode) of
           Inl e \<Rightarrow> (s1, Raised e)
         | Inr s2 \<Rightarrow> (s2, Returned True))
      else (s, Returned False))"

definition push_mode_history :: "string \<Rightarrow> string list \<Rightarrow> string list" where
  "push_mode_history new_mode h =
     (let h1 = h @ [new_mode] in if length h1 > MODE_HISTORY_SIZE then tl h1 else h1)"

definition store_payload :: "string \<Rightarrow> string \<Rightarrow> string \<Rightarrow> (string \<times> stamp option) list \<Rightarrow> payload" where
  "store_payload uid kind content meta = empty_payload\<lparr>
     pl_user_id := Some uid,
     pl_message_type := Some kind,
     pl_content := Some content,
     pl_metadata := Some meta \<rparr>"

definition store_user_msg :: "env \<Rightarrow> ActorMessage \<Rightarrow> string \<Rightarrow> string \<Rightarrow> ActorMessage" where
  "store_user_msg ev m uid content =
     create actor_id STORE_MEMORY
       (store_payload uid ''user'' content
          [(''username'', map_option Given (pl_username (msg_payload m))),
           (''timestamp'', Some (Iso (env_now ev)))])
       None"

definition get_context_msg :: "string \<Rightarrow> string \<Rightarrow> ActorMessage" where
  "get_context_msg uid request_id =
     create actor_id GET_CONTEXT
       (empty_payload\<lparr>
          pl_user_id := Some uid,
          pl_request_id := Some request_id,
          pl_limit := Some STM_CONTEXT_SIZE_FOR_GENERATION,
          pl_format_type := Some ''structured'' \<rparr>)
       (Some actor_id)"

definition pending_entry :: "env \<Rightarrow> string \<Rightarrow> int \<Rightarrow> string \<Rightarrow> UserSession \<Rightarrow> pending" where
  "pending_entry ev uid chat text s = \<lparr>
     p_user_id = uid,
     p_chat_id = chat,
     p_text = text,
     p_include_prompt = env_include_prompt ev,
     p_message_count = message_count s,
     p_session_data = \<lparr>sd_username = username s, sd_created_at = Iso (created_at s)\<rparr>,
     p_mode = current_mode s,
     p_mode_confidence = mode_confidence s,
     p_timestamp = env_now ev \<rparr>"

text \<open>
  The second half of the handler, from the update of the counters on: the session
  \<open>s\<close> is written back to the table, the events are appended, the entry is saved under
  the fresh request id and GET\_CONTEXT is sent to the memory actor. The last send is
  made on \<open>self.get_actor_system()\<close> without the test that guards the other sends, so
  without a system it raises an attribute error, after the entry has been saved.
\<close>

definition request_context ::
  "env \<Rightarrow> string \<Rightarrow> int \<Rightarrow> string \<Rightarrow> bool \<Rightarrow> UserSession \<Rightarrow> actor_state
     \<Rightarrow> actor_state \<times> ActorMessage option outcome" where
  "request_context ev uid chat text mode_changed s st =
     (let st1 = log_call (Info ''Mode detection'') (st\<lparr>sessions := (sessions st)(uid \<mapsto> s)\<rparr>);
          st2 = (if mode_changed then append_event (''user_'' @ uid) ''ModeDetectedEvent'' st1
                 else st1);
          s3 = s\<lparr>message_count := message_count s + 1, last_activity := env_now ev\<rparr>;
          st3 = st2\<lparr>sessions := (sessions st2)(uid \<mapsto> s3)\<rparr>;
          st4 = (if env_include_prompt ev
                 then append_event (''user_'' @ uid) ''PromptInclusionEvent'' st3 else st3);
          request_id = env_uuid4 ev;
          st5 = st4\<lparr>pending_requests :=
                  AList.update request_id (pending_entry ev uid chat text s3)
                    (pending_requests st4)\<rparr>
      in if actor_system st5
         then (log_call (Info ''Requested context'')
                 (send_message ''memory'' (get_context_msg uid request_id) st5),
               Returned None)
         else (st5, Raised (AttributeError ''send_message'')))"

definition handle_user_message ::
  "env \<Rightarrow> ActorMessage \<Rightarrow> actor_state \<Rightarrow> actor_state \<times> ActorMessage option outcome" where
  "handle_user_message ev m st =
     (case pl_user_id (msg_payload m) of
        None \<Rightarrow> (st, Raised (KeyError ''user_id''))
      | Some uid \<Rightarrow>
     (case pl_text (msg_payload m) of
        None \<Rightarrow> (st, Raised (KeyError ''text''))
      | Some text \<Rightarrow>
     (case pl_chat_id (msg_payload m) of
        None \<Rightarrow> (st, Raised (KeyError ''chat_id''))
      | Some chat \<Rightarrow>
     (case get_or_create_session (env_now ev) uid (pl_username (msg_payload m)) st of
        (st1, Raised e) \<Rightarrow> (st1, Raised e)
      | (st1, Returned session) \<Rightarrow>
          (let st2 = (if actor_system st1
                      then send_message ''memory'' (store_user_msg ev m uid text) st1
                      else st1);
               new_mode = fst (env_detected ev);
               confidence = snd (env_detected ev)
           in case record_mode_change (env_now ev) new_mode session of
                (s1, Raised e) \<Rightarrow> (st2\<lparr>sessions := (sessions st2)(uid \<mapsto> s1)\<rparr>, Raised e)
              | (s1, Returned mode_changed) \<Rightarrow>
                  (case setattr s1 (Set_mode_confidence confidence) of
                     Inl e \<Rightarrow> (st2\<lparr>sessions := (sessions st2)(uid \<mapsto> s1)\<rparr>, Raised e)
                   | Inr s2 \<Rightarrow>
                       request_context ev uid chat text mode_changed
                         (s2\<lparr>mode_history := push_mode_history new_mode (mode_history s2)\<rparr>)
                         st2))))))"

subsection \<open>\_update\_cache\_metrics\<close>

definition update_cache_metrics :: "ActorMessage \<Rightarrow> actor_state \<Rightarrow> actor_state" where
  "update_cache_metrics m st =
     (case pl_user_id (msg_payload m) of
        None \<Rightarrow> st
      | Some uid \<Rightarrow>
          (if uid = [] then st
           else case sessions st uid of
             None \<Rightarrow> st
           | Some s \<Rightarrow>
               (let rate = (case pl_cache_hit_rate (msg_payload m) of
                              None \<Rightarrow> Fin 0 | Some r \<Rightarrow> r);
                    ms = cache_metrics s @ [rate];
                    s1 = s\<lparr>cache_metrics :=
                            (if length ms > 20 then validate_cache_metrics_size (last_n 20 ms)
                             else ms)\<rparr>
                in st\<lparr>sessions := (sessions st)(uid \<mapsto> s1)\<rparr>)))"

subsection \<open>handle\_message\<close>

text \<open>
  The branch for CONTEXT\_RESPONSE: a request id that is falsy (absent, \<open>None\<close> or
  the empty string) or not a key of the table is answered with a warning and nothing
  else; otherwise the entry is popped and GENERATE\_RESPONSE is built from it and from
  the \<open>messages\<close> of the reply, and sent when there is an actor system.
\<close>

definition handle_context_response ::
  "ActorMessage \<Rightarrow> actor_state \<Rightarrow> actor_state \<times> ActorMessage option outcome" where
  "handle_context_response m st =
     (case (case pl_request_id (msg_payload m) of
              None \<Rightarrow> None
            | Some rid \<Rightarrow> if rid = [] then None else map_option (Pair rid) (map_of (pending_requests st) rid)) of
        None \<Rightarrow> (log_call (Warning ''Received CONTEXT_RESPONSE with unknown request_id'') st,
                  Returned None)
      | Some (rid, p) \<Rightarrow>
          (let st1 = st\<lparr>pending_requests := AList.delete rid (pending_requests st)\<rparr>;
               g = generate_msg p (case pl_messages (msg_payload m) of None \<Rightarrow> [] | Some ms \<Rightarrow> ms);
               st2 = log_call (Info ''Created GENERATE_RESPONSE'') st1
           in (if actor_system st2 then send_message ''generation'' g st2 else st2,
               Returned None)))"

text \<open>The request id of a reply is unknown: falsy, or not a key of the table.\<close>

definition unknown_request_id :: "ActorMessage \<Rightarrow> actor_state \<Rightarrow> bool" where
  "unknown_request_id m st =
     (case pl_request_id (msg_payload m) of
        None \<Rightarrow> True
      | Some rid \<Rightarrow> rid = [] \<or> map_of (pending_requests st) rid = None)"

definition handle_bot_response ::
  "env \<Rightarrow> ActorMessage \<Rightarrow> actor_state \<Rightarrow> actor_state \<times> ActorMessage option outcome" where
  "handle_bot_response ev m st =
     (if actor_system st then
        (case pl_user_id (msg_payload m) of
           None \<Rightarrow> (st, Raised (KeyError ''user_id''))
         | Some uid \<Rightarrow>
        (case pl_text (msg_payload m) of
           None \<Rightarrow> (st, Raised (KeyError ''text''))
         | Some text \<Rightarrow>
             (send_message ''memory''
                (create actor_id STORE_MEMORY
                   (store_payload uid ''bot'' text
                      [(''generated_at'',
                        Some (case pl_generated_at (msg_payload m) of
                                None \<Rightarrow> Iso (env_now ev) | Some g \<Rightarrow> Given g))])
                   None) st,
              Returned None)))
      else (st, Returned None))"

text \<open>
  \<open>handle_message\<close> dispatches on the message type. \<open>_handle_user_message\<close> always
  returns \<open>None\<close>, so the send to the generation actor that follows it is never made;
  a type the chain does not name is ignored.
\<close>

definition handle_message ::
  "env \<Rightarrow> ActorMessage \<Rightarrow> actor_state \<Rightarrow> actor_state \<times> ActorMessage option outcome" where
  "handle_message ev m st =
     (if msg_type m = USER_MESSAGE then
        (case handle_user_message ev m st of
           (st1, Raised e) \<Rightarrow> (st1, Raised e)
         | (st1, Returned g) \<Rightarrow>
             (case g of
                Some gm \<Rightarrow> (if actor_system st1 then send_message ''generation'' gm st1 else st1,
                            Returned None)
              | None \<Rightarrow> (st1, Returned None)))
      else if msg_type m = CACHE_HIT_METRIC then (update_cache_metrics m st, Returned None)
      else if msg_type m = BOT_RESPONSE then handle_bot_response ev m st
      else if msg_type m = CONTEXT_RESPONSE then handle_context_response m st
      else (st, Returned None))"

subsection \<open>\_cleanup\_expired\_requests\<close>

text \<open>
  An entry is expired when \<open>(now - timestamp).total_seconds()\<close> exceeds the timeout.
  The difference of two instants is a whole number of microseconds, and its quotient by
  \<open>10^6\<close>, rounded to a float, exceeds 30 exactly when the number of microseconds
  exceeds 30 000 000.
\<close>

definition expired :: "time \<Rightarrow> pending \<Rightarrow> bool" where
  "expired t p = (t - p_timestamp p > STM_CONTEXT_REQUEST_TIMEOUT * 1000000)"

definition expired_ids :: "time \<Rightarrow> (string \<times> pending) list \<Rightarrow> string list" where
  "expired_ids t ps = map fst (filter (\<lambda>(request_id, d). expired t d) ps)"

fun pop_expired :: "string list \<Rightarrow> actor_state \<Rightarrow> actor_state \<times> unit outcome" where
  "pop_expired [] st = (st, Returned ())"
| "pop_expired (request_id # rest) st =
     (case map_of (pending_requests st) request_id of
        None \<Rightarrow> (st, Raised (KeyError request_id))
      | Some p \<Rightarrow>
          (let st1 = st\<lparr>pending_requests := AList.delete request_id (pending_requests st)\<rparr>;
               st2 = log_call (Warning ''Context request timeout'') st1;
               g = generate_msg p []
           in pop_expired rest
                (if actor_system st2 then send_message ''generation'' g st2 else st2)))"

definition cleanup_expired_requests :: "time \<Rightarrow> actor_state \<Rightarrow> actor_state \<times> unit outcome" where
  "cleanup_expired_requests t st = pop_expired (expired_ids t (pending_requests st)) st"

text \<open>
  What the sweep or a reply hands to \<open>send_message\<close> for the saved entries \<open>ps\<close>:
  one GENERATE\_RESPONSE each when there is an actor system, nothing otherwise.
\<close>

definition generation_sends ::
  "actor_state \<Rightarrow> ctx_msg list \<Rightarrow> pending list \<Rightarrow> (string \<times> ActorMessage) list" where
  "generation_sends st h ps =
     (if actor_system st then map (\<lambda>p. (''generation'', generate_msg p h)) ps else [])"

subsection \<open>\_\_init\_\_ and runs of the handler\<close>

definition initial_state :: "bool \<Rightarrow> actor_state" where
  "initial_state attached = \<lparr>
     sessions = Map.empty, pending_requests = [], actor_system = attached,
     sent = [], appended = [], logged = [] \<rparr>"

text \<open>
  The messages of a mailbox handled one after the other. What a handler has done to the
  state stays done whether it returned or raised.
\<close>

definition process_all :: "(env \<times> ActorMessage) list \<Rightarrow> actor_state \<Rightarrow> actor_state" where
  "process_all ms st = fold (\<lambda>(ev, m) st'. fst (handle_message ev m st')) ms st"

definition history_of :: "actor_state \<Rightarrow> string \<Rightarrow> string list" where
  "history_of st uid = (case sessions st uid of None \<Rightarrow> [] | Some s \<Rightarrow> mode_history s)"

text \<open>
  A user message of user \<open>uid\<close> that carries the keys the handler reads, handled with
  a detection result that is a mode with a confidence between 0 and 1.
\<close>

definition user_message_for :: "string \<Rightarrow> env \<Rightarrow> ActorMessage \<Rightarrow> bool" where
  "user_message_for uid ev m =
     (msg_type m = USER_MESSAGE \<and>
      pl_user_id (msg_payload m) = Some uid \<and>
      pl_text (msg_payload m) \<noteq> None \<and>
      pl_chat_id (msg_payload m) \<noteq> None \<and>
      fst (env_detected ev) \<in> set valid_modes \<and>
      confidence_in_range (snd (env_detected ev)))"

subsection \<open>\_cleanup\_pending\_requests\_loop\<close>

text \<open>
  One iteration of the loop reads \<open>self.is_running\<close> at its head and then runs the
  body, where either the sleep ends and the sweep runs at some instant, or the task is
  cancelled, or an exception of class \<open>Exception\<close> is raised (what a sweep that
  is cut short by it has done to the table before is not modelled). A run of the loop is
  driven by the list of what happens in its iterations; \<open>Looping\<close> says that the loop
  is still alive when the list ends.
\<close>

datatype body = Slept time | Cancelled | Failed string

datatype loop_status = Looping | Stopped_not_running | Stopped_cancelled

fun cleanup_pending_requests_loop ::
  "(bool \<times> body) list \<Rightarrow> actor_state \<Rightarrow> actor_state \<times> loop_status" where
  "cleanup_pending_requests_loop [] st = (st, Looping)"
| "cleanup_pending_requests_loop ((is_running, b) # rest) st =
     (if \<not> is_running then (st, Stopped_not_running)
      else case b of
        Cancelled \<Rightarrow> (st, Stopped_cancelled)
      | Failed e \<Rightarrow>
          cleanup_pending_requests_loop rest (log_call (Error ''Error in cleanup loop'') st)
      | Slept t \<Rightarrow>
          (case cleanup_expired_requests t st of
             (st1, Returned u) \<Rightarrow> cleanup_pending_requests_loop rest st1
           | (st1, Raised CancelledError) \<Rightarrow> (st1, Stopped_cancelled)
           | (st1, Raised e) \<Rightarrow>
               cleanup_pending_requests_loop rest
                 (log_call (Error ''Error in cleanup loop'') st1)))"

text \<open>
  Modelled from the spec: the message loop of \<open>BaseActor\<close> (actors/base\_actor.py) is
  not among the sources. Sections 4.2 and 7 of the specification: the loop waits for the
  next mailbox entry, processes exactly one message at a time and repeats until stopped;
  an error from \<open>handle\<close> is logged and the loop continues with the next entry; only
  shutdown (cancellation, or the running flag) stops it.
\<close>

datatype delivery = Deliver env ActorMessage | Cancel

fun message_loop :: "(bool \<times> delivery) list \<Rightarrow> actor_state \<Rightarrow> actor_state \<times> loop_status" where
  "message_loop [] st = (st, Looping)"
| "message_loop ((is_running, d) # rest) st =
     (if \<not> is_running then (st, Stopped_not_running)
      else case d of
        Cancel \<Rightarrow> (st, Stopped_cancelled)
      | Deliver ev m \<Rightarrow>
          (case handle_message ev m st of
             (st1, Returned r) \<Rightarrow> message_loop rest st1
           | (st1, Raised e) \<Rightarrow>
               message_loop rest (log_call (Error ''Error processing message'') st1)))"

section \<open>Short-term memory and the memory actor\<close>

text \<open>
  Modelled from the spec: \<open>MemoryActor\<close> (actors/memory\_actor.py) and its store are
  not among the sources; only its tests are. Section 8 of the specification (bounded
  buffer): the buffer keeps, for each key, the records in arrival order and evicts the
  oldest ones once there are more than the capacity. Section 7 (degraded mode): the
  actor keeps running and serving requests but skips persistence, logging every skipped
  write. The tests give the rest: a stored message counts in \<open>store_memory_count\<close>
  also in degraded mode, GET\_CONTEXT is answered with a CONTEXT\_RESPONSE whose payload
  has \<open>messages\<close>, \<open>context\<close> and \<open>total_messages\<close>, in degraded mode with
  \<open>degraded_mode\<close> true and an empty \<open>context\<close>, and a message of a type the actor
  does not know counts in \<open>unknown_message_count\<close>.
\<close>

type_synonym stm_record = "string \<times> string"

definition stm_store :: "nat \<Rightarrow> string \<Rightarrow> 'r \<Rightarrow> (string \<Rightarrow> 'r list) \<Rightarrow> (string \<Rightarrow> 'r list)" where
  "stm_store capacity key r buf =
     buf(key := (let xs = buf key @ [r]
                 in if length xs > capacity then drop (length xs - capacity) xs else xs))"

definition stm_store_all :: "nat \<Rightarrow> (string \<times> 'r) list \<Rightarrow> (string \<Rightarrow> 'r list) \<Rightarrow> (string \<Rightarrow> 'r list)" where
  "stm_store_all capacity rs buf = fold (\<lambda>(key, r) b. stm_store capacity key r b) rs buf"

definition stm_read :: "(string \<Rightarrow> 'r list) \<Rightarrow> string \<Rightarrow> 'r list" where
  "stm_read buf key = buf key"

definition stm_empty :: "string \<Rightarrow> 'r list" where
  "stm_empty = (\<lambda>key. [])"

definition records_of :: "string \<Rightarrow> (string \<times> 'r) list \<Rightarrow> 'r list" where
  "records_of key rs = map snd (filter (\<lambda>(k, r). k = key) rs)"

record memory_actor =
  degraded_mode :: bool
  stm_buffer :: "string \<Rightarrow> stm_record list"
  store_memory_count :: nat
  get_context_count :: nat
  clear_memory_count :: nat
  unknown_message_count :: nat
  skipped_writes :: nat

definition memory_actor_id :: string where
  "memory_actor_id = ''memory''"

definition context_response :: "ActorMessage \<Rightarrow> bool \<Rightarrow> stm_record list \<Rightarrow> ActorMessage" where
  "context_response m degraded rs =
     create memory_actor_id CONTEXT_RESPONSE
       (empty_payload\<lparr>
          pl_user_id := pl_user_id (msg_payload m),
          pl_request_id := pl_request_id (msg_payload m),
          pl_messages := Some rs,
          pl_context := Some rs,
          pl_total_messages := Some (int (length rs)),
          pl_degraded_mode := Some degraded \<rparr>)
       None"

definition memory_handle_message ::
  "ActorMessage \<Rightarrow> memory_actor \<Rightarrow> memory_actor \<times> ActorMessage option outcome" where
  "memory_handle_message m a =
     (if msg_type m = STORE_MEMORY then
        (let a1 = a\<lparr>store_memory_count := store_memory_count a + 1\<rparr>
         in if degraded_mode a1 then (a1\<lparr>skipped_writes := skipped_writes a1 + 1\<rparr>, Returned None)
            else case (pl_user_id (msg_payload m), pl_content (msg_payload m)) of
                   (Some uid, Some content) \<Rightarrow>
                     (a1\<lparr>stm_buffer :=
                          stm_store STM_BUFFER_SIZE uid
                            (case pl_message_type (msg_payload m) of
                               None \<Rightarrow> ''user'' | Some k \<Rightarrow> k, content)
                            (stm_buffer a1)\<rparr>,
                      Returned None)
                 | _ \<Rightarrow> (a1, Returned None))
      else if msg_type m = GET_CONTEXT then
        (let a1 = a\<lparr>get_context_count := get_context_count a + 1\<rparr>
         in if degraded_mode a1 then (a1, Returned (Some (context_response m True [])))
            else (a1, Returned (Some (context_response m False
                    (case pl_user_id (msg_payload m) of
                       None \<Rightarrow> [] | Some uid \<Rightarrow> stm_read (stm_buffer a1) uid)))))
      else if msg_type m = CLEAR_USER_MEMORY then
        (let a1 = a\<lparr>clear_memory_count := clear_memory_count a + 1\<rparr>
         in if degraded_mode a1 then (a1\<lparr>skipped_writes := skipped_writes a1 + 1\<rparr>, Returned None)
            else case pl_user_id (msg_payload m) of
                   None \<Rightarrow> (a1, Returned None)
                 | Some uid \<Rightarrow> (a1\<lparr>stm_buffer := (stm_buffer a1)(uid := [])\<rparr>, Returned None))
      else (a\<lparr>unknown_message_count := unknown_message_count a + 1\<rparr>, Returned None))"

definition memory_process_all :: "ActorMessage list \<Rightarrow> memory_actor \<Rightarrow> memory_actor" where
  "memory_process_all ms a = fold (\<lambda>m a'. fst (memory_handle_message m a')) ms a"

definition new_memory_actor :: "bool \<Rightarrow> memory_actor" where
  "new_memory_actor degraded = \<lparr>
     degraded_mode = degraded, stm_buffer = stm_empty, store_memory_count = 0,
     get_context_count = 0, clear_memory_count = 0, unknown_message_count = 0,
     skipped_writes = 0 \<rparr>"

section \<open>Dispatch through the actor system\<close>














section \<open>Event store\<close>

text \<open>
  Modelled from the spec: \<open>EventStore\<close> and \<open>EventStoreConcurrencyError\<close>
  (actors/events/event\_store.py) are not among the sources; the package file only
  re-exports them. Section 4.4 of the specification: \<open>append(streamId, event,
  expectedVersion)\<close> appends one event record if and only if the stream's current
  version equals \<open>expectedVersion\<close>; on mismatch it fails with
  \<open>EventStoreConcurrencyError\<close> carrying the expected and the actual version and
  appends nothing. Section 3: versions within a stream increase without gaps and are
  assigned by the store at append time, so the current version of a stream is the number
  of its events.
\<close>

record event_record =
  ev_stream_id :: string
  ev_event_type :: string
  ev_version :: nat

datatype store_error = EventStoreConcurrencyError nat nat

type_synonym event_store = "string \<Rightarrow> event_record list"

definition current_version :: "event_store \<Rightarrow> string \<Rightarrow> nat" where
  "current_version store stream_id = length (store stream_id)"

text \<open>
  The call yields the store as it is after the call together with either the error or
  the version given to the appended event.
\<close>

definition append_stream ::
  "string \<Rightarrow> event_record \<Rightarrow> nat \<Rightarrow> event_store \<Rightarrow> event_store \<times> (store_error + nat)" where
  "append_stream stream_id e expected_version store =
     (let actual = current_version store stream_id
      in if actual = expected_version
         then (store(stream_id := store stream_id @ [e\<lparr>ev_version := actual + 1\<rparr>]),
               Inr (actual + 1))
         else (store, Inl (EventStoreConcurrencyError expected_version actual)))"

definition get_stream :: "event_store \<Rightarrow> string \<Rightarrow> event_record list" where
  "get_stream store stream_id = store stream_id"

section \<open>Sample values\<close>

definition sample_entry :: "string \<Rightarrow> time \<Rightarrow> pending" where
  "sample_entry uid t = \<lparr>
     p_user_id = uid, p_chat_id = 12345, p_text = ''Test message for timeout'',
     p_include_prompt = True, p_message_count = 1,
     p_session_data = \<lparr>sd_username = Some ''TimeoutTest'', sd_created_at = Iso 0\<rparr>,
     p_mode = ''talk'', p_mode_confidence = Fin (1/2), p_timestamp = t \<rparr>"

definition sample_env :: "time \<Rightarrow> string \<Rightarrow> string \<Rightarrow> env" where
  "sample_env t rid mode = \<lparr>
     env_now = t, env_uuid4 = rid, env_detected = (mode, Fin (1/2)),
     env_include_prompt = True \<rparr>"

definition user_msg :: "string \<Rightarrow> string \<Rightarrow> ActorMessage" where
  "user_msg uid tx =
     create ''test'' USER_MESSAGE
       (empty_payload\<lparr>pl_user_id := Some uid, pl_chat_id := Some 12345,
          pl_username := Some ''TestUser'', pl_text := Some tx\<rparr>)
       None"

definition context_reply :: "string option \<Rightarrow> ctx_msg list \<Rightarrow> ActorMessage" where
  "context_reply rid ms =
     create ''memory'' CONTEXT_RESPONSE
       (empty_payload\<lparr>pl_request_id := rid, pl_messages := Some ms\<rparr>)
       None"

definition state_with_pending :: "bool \<Rightarrow> (string \<times> pending) list \<Rightarrow> actor_state" where
  "state_with_pending attached ps = (initial_state attached)\<lparr>pending_requests := ps\<rparr>"

definition empty_store :: event_store where
  "empty_store = (\<lambda>stream_id. [])"

definition sample_event :: "string \<Rightarrow> string \<Rightarrow> event_record" where
  "sample_event stream_id event_type =
     \<lparr>ev_stream_id = stream_id, ev_event_type = event_type, ev_version = 0\<rparr>"

definition store_msg :: "string \<Rightarrow> string \<Rightarrow> string \<Rightarrow> ActorMessage" where
  "store_msg uid kind content =
     create ''test'' STORE_MEMORY (store_payload uid kind content []) None"

definition get_msg :: "string \<Rightarrow> ActorMessage" where
  "get_msg uid = create ''test'' GET_CONTEXT (empty_payload\<lparr>pl_user_id := Some uid\<rparr>) None"

definition sixty_records :: "(string \<times> nat) list" where
  "sixty_records = map (\<lambda>i. (''test_user_buffer'', i)) [0..<60]"

definition sample_iterations :: "(bool \<times> body) list" where
  "sample_iterations = [(True, Failed ''boom''), (True, Slept 31000000), (True, Failed ''again'')]"

definition sample_session :: "string \<Rightarrow> UserSession" where
  "sample_session uid = \<lparr>
     user_id = uid, username = Some ''TestUser'', message_count = 1, created_at = 0,
     last_activity = 0, cache_metrics = [], current_mode = ''talk'',
     mode_confidence = Fin (1/2), mode_history = [''talk''], last_mode_change = None \<rparr>"

definition state_with_session :: "bool \<Rightarrow> UserSession \<Rightarrow> actor_state" where
  "state_with_session attached s =
     (initial_state attached)\<lparr>sessions := [user_id s \<mapsto> s]\<rparr>"

definition quiet_env :: "time \<Rightarrow> string \<Rightarrow> env" where
  "quiet_env t rid = \<lparr>
     env_now = t, env_uuid4 = rid, env_detected = (''talk'', Fin (1/2)),
     env_include_prompt = False \<rparr>"

text \<open>
  What holds of the sessions of the actor at all times: each is valid and holds at most
  \<open>MODE_HISTORY_SIZE\<close> modes.
\<close>

definition actor_invariant :: "actor_state \<Rightarrow> bool" where
  "actor_invariant st =
     (\<forall>u s. sessions st u = Some s \<longrightarrow>
        session_ok s \<and> length (mode_history s) \<le> MODE_HISTORY_SIZE)"

text \<open>The modes detected for the user messages of \<open>uid\<close> in a sequence of messages.\<close>

definition detected_modes :: "string \<Rightarrow> (env \<times> ActorMessage) list \<Rightarrow> string list" where
  "detected_modes uid ms =
     map (\<lambda>(ev, m). fst (env_detected ev)) (filter (\<lambda>(ev, m). user_message_for uid ev m) ms)"

definition user_msg_without_chat :: "string \<Rightarrow> string \<Rightarrow> ActorMessage" where
  "user_msg_without_chat uid tx =
     create ''test'' USER_MESSAGE
       (empty_payload\<lparr>pl_user_id := Some uid, pl_username := Some ''TestUser'',
          pl_text := Some tx\<rparr>)
       None"

definition mixed_run :: "(env \<times> ActorMessage) list" where
  "mixed_run =
     [(sample_env 1 ''r1'' ''talk'', user_msg ''u1'' ''a''),
      (sample_env 2 ''r2'' ''expert'', user_msg ''u1'' ''b''),
      (quiet_env 3 ''x1'', context_reply (Some ''r1'') []),
      (sample_env 4 ''r3'' ''creative'', user_msg ''u1'' ''c''),
      (sample_env 5 ''r4'' ''expert'', user_msg_without_chat ''u1'' ''d''),
      (sample_env 6 ''r5'' ''talk'', user_msg ''u1'' ''e''),
      (sample_env 7 ''r6'' ''expert'', user_msg ''u2'' ''f''),
      (sample_env 8 ''r7'' ''talk'', user_msg ''u1'' ''g''),
      (sample_env 9 ''r8'' ''expert'', user_msg ''u1'' ''h''),
      (sample_env 10 ''r9'' ''base'', user_msg ''u1'' ''i'')]"

section \<open>Validation of sessions\<close>

lemma validate_confidence_Inr:
  "(\<exists>c. validate_confidence v = Inr c) = confidence_in_range v"
  by (cases v)
     (simp_all add: validate_confidence_def confidence_in_range_def)

lemma validate_confidence_value: "validate_confidence v = Inr c \<Longrightarrow> c = v"
  by (simp add: validate_confidence_def split: if_splits)

lemma validate_mode_Inr: "(\<exists>m. validate_mode v = Inr m) = (v \<in> set valid_modes)"
  by (simp add: validate_mode_def)

lemma validate_mode_value: "validate_mode v = Inr m \<Longrightarrow> m = v"
  by (simp add: validate_mode_def split: if_splits)

lemma default_mode_valid: "''talk'' \<in> set valid_modes"
  by (simp add: valid_modes_def)

lemma default_confidence_valid: "confidence_in_range (Fin 0)"
  by (simp add: confidence_in_range_def PYDANTIC_CONFIDENCE_MIN_def PYDANTIC_CONFIDENCE_MAX_def)

lemma field_errors_empty: "(field_errors kw = []) = kwargs_ok kw"
proof -
  have m: "\<And>m. (case validate_mode m of Inl f \<Rightarrow> [f] | Inr _ \<Rightarrow> []) = []
                \<longleftrightarrow> m \<in> set valid_modes"
    by (simp add: validate_mode_def)
  have c: "\<And>c. (case validate_confidence c of Inl f \<Rightarrow> [f] | Inr _ \<Rightarrow> []) = []
                \<longleftrightarrow> confidence_in_range c"
  proof -
    fix c show "(case validate_confidence c of Inl f \<Rightarrow> [f] | Inr _ \<Rightarrow> []) = []
                \<longleftrightarrow> confidence_in_range c"
      by (cases c) (simp_all add: validate_confidence_def confidence_in_range_def)
  qed
  show ?thesis
    by (cases "kw_current_mode kw"; cases "kw_mode_confidence kw")
       (simp_all add: field_errors_def kwargs_ok_def m c)
qed

lemma init_ok: "UserSession_init now kw = Inr s \<Longrightarrow> session_ok s"
proof -
  assume a: "UserSession_init now kw = Inr s"
  then have k: "kwargs_ok kw"
    using field_errors_empty [of kw] by (auto simp: UserSession_init_def split: if_splits)
  from a have cm: "current_mode s = (case kw_current_mode kw of None \<Rightarrow> ''talk'' | Some m \<Rightarrow> m)"
    and mc: "mode_confidence s = (case kw_mode_confidence kw of None \<Rightarrow> Fin 0 | Some c \<Rightarrow> c)"
    by (auto simp: UserSession_init_def split: if_splits)
  show "session_ok s"
    using k default_mode_valid default_confidence_valid
    by (auto simp: session_ok_def kwargs_ok_def cm mc split: option.splits)
qed

lemma init_rejects:
  "\<not> kwargs_ok kw \<Longrightarrow> UserSession_init now kw = Inl (ValidationError (field_errors kw))"
  using field_errors_empty [of kw] by (simp add: UserSession_init_def)

lemma init_accepts: "kwargs_ok kw \<Longrightarrow> \<exists>s. UserSession_init now kw = Inr s"
  using field_errors_empty [of kw] by (simp add: UserSession_init_def)

lemma setattr_ok: "session_ok s \<Longrightarrow> setattr s a = Inr s' \<Longrightarrow> session_ok s'"
proof (cases a)
  case (Set_current_mode v)
  assume "session_ok s" "setattr s a = Inr s'"
  then show ?thesis
    using Set_current_mode
    by (auto simp: session_ok_def validate_mode_def split: sum.splits if_splits)
next
  case (Set_mode_confidence v)
  assume "session_ok s" "setattr s a = Inr s'"
  then show ?thesis
    using Set_mode_confidence validate_confidence_Inr [of v] validate_confidence_value [of v]
    by (auto simp: session_ok_def split: sum.splits)
qed (auto simp: session_ok_def)

lemma setattr_rejects:
  "\<not> assignment_ok a \<Longrightarrow> \<exists>fs. setattr s a = Inl (ValidationError fs)"
proof (cases a)
  case (Set_current_mode v)
  assume "\<not> assignment_ok a"
  then show ?thesis using Set_current_mode by (simp add: validate_mode_def)
next
  case (Set_mode_confidence v)
  assume "\<not> assignment_ok a"
  then show ?thesis
    using Set_mode_confidence validate_confidence_Inr [of v]
    by (auto split: sum.splits)
qed auto

lemma setattr_accepts: "assignment_ok a \<Longrightarrow> \<exists>s'. setattr s a = Inr s'"
proof (cases a)
  case (Set_current_mode v)
  assume "assignment_ok a"
  then show ?thesis using Set_current_mode by (simp add: validate_mode_def)
next
  case (Set_mode_confidence v)
  assume "assignment_ok a"
  then show ?thesis
    using Set_mode_confidence validate_confidence_Inr [of v]
    by (auto split: sum.splits)
qed auto

text \<open>
  Claim C9. A session produced by construction satisfies both conditions, an assignment
  that succeeds on a session satisfying them yields a session satisfying them, and a
  construction or an assignment whose mode is not one of talk, expert, creative, base or
  whose confidence is not within [0.0, 1.0] raises a validation error (no session is
  produced); all other constructions and assignments succeed.
\<close>

theorem user_session_validated:
  "(\<forall>s. UserSession_init now kw = Inr s \<longrightarrow> session_ok s) \<and>
   (\<not> kwargs_ok kw \<longrightarrow> (\<exists>fs. UserSession_init now kw = Inl (ValidationError fs))) \<and>
   (kwargs_ok kw \<longrightarrow> (\<exists>s. UserSession_init now kw = Inr s)) \<and>
   (\<forall>s'. session_ok s0 \<and> setattr s0 a = Inr s' \<longrightarrow> session_ok s') \<and>
   (\<not> assignment_ok a \<longrightarrow> (\<exists>fs. setattr s0 a = Inl (ValidationError fs))) \<and>
   (assignment_ok a \<longrightarrow> (\<exists>s'. setattr s0 a = Inr s'))"
  using init_ok [of now kw] init_rejects [of kw now] init_accepts [of kw now]
    setattr_ok [of s0 a] setattr_rejects [of a s0] setattr_accepts [of a s0]
  by blast

theorem user_session_validated_witness:
  "kwargs_ok \<lparr>kw_user_id = ''u1'', kw_username = None, kw_message_count = None,
      kw_created_at = None, kw_last_activity = None, kw_cache_metrics = None,
      kw_current_mode = Some ''expert'', kw_mode_confidence = Some (Fin (1/2)),
      kw_mode_history = None, kw_last_mode_change = None\<rparr> \<and>
   (\<exists>s. UserSession_init 7 \<lparr>kw_user_id = ''u1'', kw_username = None, kw_message_count = None,
      kw_created_at = None, kw_last_activity = None, kw_cache_metrics = None,
      kw_current_mode = Some ''expert'', kw_mode_confidence = Some (Fin (1/2)),
      kw_mode_history = None, kw_last_mode_change = None\<rparr> = Inr s \<and> session_ok s) \<and>
   \<not> assignment_ok (Set_mode_confidence (Fin (3/2))) \<and>
   (\<exists>fs. setattr \<lparr>user_id = ''u1'', username = None, message_count = 0, created_at = 7,
      last_activity = 7, cache_metrics = [], current_mode = ''talk'', mode_confidence = Fin 0,
      mode_history = [], last_mode_change = None\<rparr> (Set_mode_confidence (Fin (3/2)))
      = Inl (ValidationError fs))"
proof -
  let ?kw = "\<lparr>kw_user_id = ''u1'', kw_username = None, kw_message_count = None,
      kw_created_at = None, kw_last_activity = None, kw_cache_metrics = None,
      kw_current_mode = Some ''expert'', kw_mode_confidence = Some (Fin (1/2)),
      kw_mode_history = None, kw_last_mode_change = None\<rparr>"
  let ?s0 = "\<lparr>user_id = ''u1'', username = None, message_count = 0, created_at = 7,
      last_activity = 7, cache_metrics = [], current_mode = ''talk'', mode_confidence = Fin 0,
      mode_history = [], last_mode_change = None\<rparr>"
  have k: "kwargs_ok ?kw"
    by (simp add: kwargs_ok_def valid_modes_def confidence_in_range_def
        PYDANTIC_CONFIDENCE_MIN_def PYDANTIC_CONFIDENCE_MAX_def)
  have a: "\<not> assignment_ok (Set_mode_confidence (Fin (3/2)))"
    by (simp add: confidence_in_range_def PYDANTIC_CONFIDENCE_MIN_def PYDANTIC_CONFIDENCE_MAX_def)
  from k a show ?thesis
    using user_session_validated [of 7 ?kw ?s0 "Set_mode_confidence (Fin (3/2))"]
    by blast
qed

section \<open>The pending-request table\<close>

lemma delete_filter: "AList.delete k ps = filter (\<lambda>(k', v). k' \<noteq> k) ps"
  by (induction ps) auto

lemma map_of_filter_neq:
  "map_of (filter (\<lambda>(k', v). k' \<noteq> k) ps) x = (if x = k then None else map_of ps x)"
  by (induction ps) auto

lemma filter_keys_twice:
  "filter (\<lambda>(k', p). k' \<notin> set ids) (filter (\<lambda>(k', v). k' \<noteq> k) ps)
     = filter (\<lambda>(k', p). k' \<notin> set (k # ids)) ps"
  by (induction ps) auto

lemma key_has_entry: "k \<in> fst ` set ps \<Longrightarrow> \<exists>p. map_of ps k = Some p"
  by (cases "map_of ps k") (auto simp: map_of_eq_None_iff)

lemma update_fresh: "k \<notin> fst ` set ps \<Longrightarrow> AList.update k v ps = ps @ [(k, v)]"
  by (induction ps) auto

subsection \<open>The sweep\<close>

text \<open>
  The second loop of the sweep, for any list of distinct keys of the table: the keys are
  removed, one warning is logged for each, and one fallback message is sent for each
  when there is an actor system.
\<close>

lemma pop_expired_general:
  "distinct ids \<Longrightarrow> set ids \<subseteq> fst ` set (pending_requests st) \<Longrightarrow>
   pop_expired ids st =
     (st\<lparr>pending_requests := filter (\<lambda>(k, p). k \<notin> set ids) (pending_requests st),
         sent := sent st @ generation_sends st []
                   (map (\<lambda>k. the (map_of (pending_requests st) k)) ids),
         logged := logged st @ map (\<lambda>k. Warning ''Context request timeout'') ids\<rparr>,
      Returned ())"
proof (induction ids arbitrary: st)
  case Nil
  then show ?case by (simp add: generation_sends_def)
next
  case (Cons k ids)
  from Cons.prems obtain p where p: "map_of (pending_requests st) k = Some p"
    using key_has_entry [of k "pending_requests st"] by auto
  define st' where "st' = (let st2 = log_call (Warning ''Context request timeout'')
                  (st\<lparr>pending_requests := AList.delete k (pending_requests st)\<rparr>)
        in if actor_system st2 then send_message ''generation'' (generate_msg p []) st2 else st2)"
  have step: "pop_expired (k # ids) st = pop_expired ids st'"
    using p by (simp add: Let_def st'_def)
  have d: "distinct ids" and nk: "k \<notin> set ids" using Cons.prems by auto
  have pr: "pending_requests st' = filter (\<lambda>(k', v). k' \<noteq> k) (pending_requests st)"
    by (simp add: st'_def Let_def log_call_def send_message_def delete_filter)
  have as: "actor_system st' = actor_system st"
    by (simp add: st'_def Let_def log_call_def send_message_def)
  have se: "sent st' = sent st @ generation_sends st [] [p]"
    by (simp add: st'_def Let_def log_call_def send_message_def generation_sends_def)
  have lo: "logged st' = logged st @ [Warning ''Context request timeout'']"
    by (simp add: st'_def Let_def log_call_def send_message_def)
  have sub: "set ids \<subseteq> fst ` set (pending_requests st')"
    using Cons.prems nk unfolding pr by force
  have mo: "map (\<lambda>k'. the (map_of (filter (\<lambda>(k', v). k' \<noteq> k) (pending_requests st)) k')) ids
          = map (\<lambda>k'. the (map_of (pending_requests st) k')) ids"
    using nk by (intro map_cong) (auto simp: map_of_filter_neq)
  have ts: "generation_sends st' [] = generation_sends st []"
    by (simp add: generation_sends_def as fun_eq_iff)
  have rest: "st'\<lparr>pending_requests := X, sent := Y, logged := Z\<rparr>
            = st\<lparr>pending_requests := X, sent := Y, logged := Z\<rparr>" for X Y Z
    by (simp add: st'_def Let_def log_call_def send_message_def)
  show ?case
    unfolding step Cons.IH [OF d sub] pr mo se lo ts filter_keys_twice rest
    using p by (simp add: generation_sends_def del: map_map)
qed

lemma expired_ids_distinct:
  "distinct (map fst ps) \<Longrightarrow> distinct (expired_ids t ps)"
  unfolding expired_ids_def by (simp add: distinct_map_filter)

lemma expired_ids_subset: "set (expired_ids t ps) \<subseteq> fst ` set ps"
  unfolding expired_ids_def by auto

lemma filter_not_expired_ids:
  "distinct (map fst ps) \<Longrightarrow>
   filter (\<lambda>(k, p). k \<notin> set (expired_ids t ps)) ps = filter (\<lambda>(k, p). \<not> expired t p) ps"
  unfolding expired_ids_def
  by (intro filter_cong refl) (force simp: distinct_map inj_on_def dest: eq_key_imp_eq_value)

lemma lookup_expired_ids:
  "distinct (map fst ps) \<Longrightarrow>
   map (\<lambda>k. the (map_of ps k)) (expired_ids t ps) = map snd (filter (\<lambda>(k, p). expired t p) ps)"
  unfolding expired_ids_def by (auto simp: comp_def intro!: map_cong)

text \<open>
  Claim C1, as amended. One sweep at instant \<open>t\<close> removes from the table every entry
  whose timestamp is more than the timeout before \<open>t\<close> and leaves the other entries
  as they are, in their order; for each removed entry, in table order, it logs one warning
  and, when the actor has an actor system, sends to the generation actor one
  GENERATE\_RESPONSE built from the saved entry with an empty historical context; without
  an actor system it sends nothing. Nothing else in the state changes and the sweep
  returns normally.
\<close>

theorem cleanup_resolves_expired:
  "distinct (map fst (pending_requests st)) \<Longrightarrow>
   cleanup_expired_requests t st =
     (st\<lparr>pending_requests := filter (\<lambda>(k, p). \<not> expired t p) (pending_requests st),
         sent := sent st @ generation_sends st []
                   (map snd (filter (\<lambda>(k, p). expired t p) (pending_requests st))),
         logged := logged st @ map (\<lambda>k. Warning ''Context request timeout'')
                                   (expired_ids t (pending_requests st))\<rparr>,
      Returned ())"
  unfolding cleanup_expired_requests_def
  by (simp add: pop_expired_general expired_ids_distinct expired_ids_subset
      filter_not_expired_ids lookup_expired_ids)

theorem cleanup_resolves_expired_witness:
  "distinct (map fst (pending_requests (state_with_pending True
      [(''a'', sample_entry ''u'' 0), (''b'', sample_entry ''u'' 5000000)]))) \<and>
   expired 31000000 (sample_entry ''u'' 0) \<and>
   \<not> expired 31000000 (sample_entry ''u'' 5000000) \<and>
   cleanup_expired_requests 31000000
     (state_with_pending True
        [(''a'', sample_entry ''u'' 0), (''b'', sample_entry ''u'' 5000000)]) =
     ((state_with_pending True [(''b'', sample_entry ''u'' 5000000)])
        \<lparr>sent := [(''generation'', generate_msg (sample_entry ''u'' 0) [])],
         logged := [Warning ''Context request timeout'']\<rparr>,
      Returned ())"
proof -
  let ?st = "state_with_pending True
       [(''a'', sample_entry ''u'' 0), (''b'', sample_entry ''u'' 5000000)]"
  have d: "distinct (map fst (pending_requests ?st))"
    by (simp add: state_with_pending_def)
  have e1: "expired 31000000 (sample_entry ''u'' 0)"
    by (simp add: expired_def sample_entry_def STM_CONTEXT_REQUEST_TIMEOUT_def)
  have e2: "\<not> expired 31000000 (sample_entry ''u'' 5000000)"
    by (simp add: expired_def sample_entry_def STM_CONTEXT_REQUEST_TIMEOUT_def)
  show ?thesis
    using cleanup_resolves_expired [OF d, of 31000000] e1 e2
    by (simp add: expired_ids_def generation_sends_def initial_state_def state_with_pending_def)
qed

text \<open>
  Claim C1 as stated fails without an actor system: the expired entry is removed and no
  message is sent.
\<close>

theorem cleanup_without_system_counterexample:
  "expired 31000000 (sample_entry ''u'' 0) \<and>
   pending_requests (fst (cleanup_expired_requests 31000000
      (state_with_pending False [(''a'', sample_entry ''u'' 0)]))) = [] \<and>
   sent (fst (cleanup_expired_requests 31000000
      (state_with_pending False [(''a'', sample_entry ''u'' 0)]))) = []"
  by (simp add: cleanup_expired_requests_def expired_ids_def expired_def
      STM_CONTEXT_REQUEST_TIMEOUT_def initial_state_def state_with_pending_def
      sample_entry_def log_call_def)

subsection \<open>The reply\<close>

lemma context_response_known:
  assumes "msg_type m = CONTEXT_RESPONSE"
    and "pl_request_id (msg_payload m) = Some rid" and "rid \<noteq> []"
    and "map_of (pending_requests st) rid = Some p"
  shows "handle_message ev m st =
      (st\<lparr>pending_requests := filter (\<lambda>(k, d). k \<noteq> rid) (pending_requests st),
          logged := logged st @ [Info ''Created GENERATE_RESPONSE''],
          sent := sent st @ generation_sends st
                    (case pl_messages (msg_payload m) of None \<Rightarrow> [] | Some ms \<Rightarrow> ms) [p]\<rparr>,
       Returned None)"
  using assms
  by (simp add: handle_message_def handle_context_response_def Let_def log_call_def
      send_message_def generation_sends_def delete_filter)

lemma context_response_unknown:
  assumes "msg_type m = CONTEXT_RESPONSE"
    and "pl_request_id (msg_payload m) = None \<or> pl_request_id (msg_payload m) = Some [] \<or>
         (\<exists>rid. pl_request_id (msg_payload m) = Some rid \<and> map_of (pending_requests st) rid = None)"
  shows "handle_message ev m st =
      (st\<lparr>logged := logged st @ [Warning ''Received CONTEXT_RESPONSE with unknown request_id'']\<rparr>,
       Returned None)"
  using assms
  by (auto simp: handle_message_def handle_context_response_def Let_def log_call_def)

text \<open>
  Claim C2, as amended. Handling a CONTEXT\_RESPONSE whose request id is non-empty and a
  key of the table removes that entry, builds one GENERATE\_RESPONSE from the saved entry
  with the messages of the reply as historical context, and sends it to the generation
  actor when the actor has an actor system (without one nothing is sent). When the
  request id is missing, empty or not a key of the table, the table is unchanged, a
  warning is logged and nothing is sent. In both cases the handler returns nothing.
\<close>

theorem context_response_resolves:
  "msg_type m = CONTEXT_RESPONSE \<Longrightarrow>
   (\<forall>rid p. pl_request_id (msg_payload m) = Some rid \<and> rid \<noteq> [] \<and>
            map_of (pending_requests st) rid = Some p \<longrightarrow>
      handle_message ev m st =
        (st\<lparr>pending_requests := filter (\<lambda>(k, d). k \<noteq> rid) (pending_requests st),
            logged := logged st @ [Info ''Created GENERATE_RESPONSE''],
            sent := sent st @ generation_sends st
                      (case pl_messages (msg_payload m) of None \<Rightarrow> [] | Some ms \<Rightarrow> ms) [p]\<rparr>,
         Returned None)) \<and>
   (unknown_request_id m st \<longrightarrow>
      handle_message ev m st =
        (st\<lparr>logged := logged st @
               [Warning ''Received CONTEXT_RESPONSE with unknown request_id'']\<rparr>,
         Returned None))"
  using context_response_known [of m _ st _ ev] context_response_unknown [of m st ev]
  by (auto simp: unknown_request_id_def split: option.splits)

theorem context_response_resolves_witness:
  "msg_type (context_reply (Some ''a'') [(''user'', ''hi'')]) = CONTEXT_RESPONSE \<and>
   map_of (pending_requests (state_with_pending True [(''a'', sample_entry ''u'' 0)])) ''a''
     = Some (sample_entry ''u'' 0) \<and>
   handle_message (sample_env 100 ''r'' ''talk'') (context_reply (Some ''a'') [(''user'', ''hi'')])
       (state_with_pending True [(''a'', sample_entry ''u'' 0)]) =
     ((state_with_pending True [])
        \<lparr>logged := [Info ''Created GENERATE_RESPONSE''],
         sent := [(''generation'', generate_msg (sample_entry ''u'' 0) [(''user'', ''hi'')])]\<rparr>,
      Returned None) \<and>
   unknown_request_id (context_reply (Some ''b'') [])
       (state_with_pending True [(''a'', sample_entry ''u'' 0)]) \<and>
   handle_message (sample_env 100 ''r'' ''talk'') (context_reply (Some ''b'') [])
       (state_with_pending True [(''a'', sample_entry ''u'' 0)]) =
     ((state_with_pending True [(''a'', sample_entry ''u'' 0)])
        \<lparr>logged := [Warning ''Received CONTEXT_RESPONSE with unknown request_id'']\<rparr>,
      Returned None)"
proof -
  let ?st = "state_with_pending True [(''a'', sample_entry ''u'' 0)]"
  let ?ev = "sample_env 100 ''r'' ''talk''"
  have t1: "msg_type (context_reply (Some ''a'') [(''user'', ''hi'')]) = CONTEXT_RESPONSE"
    and t2: "msg_type (context_reply (Some ''b'') []) = CONTEXT_RESPONSE"
    by (simp_all add: context_reply_def create_def)
  have k: "pl_request_id (msg_payload (context_reply (Some ''a'') [(''user'', ''hi'')])) = Some ''a''
      \<and> ''a'' \<noteq> [] \<and> map_of (pending_requests ?st) ''a'' = Some (sample_entry ''u'' 0)"
    by (simp add: context_reply_def create_def empty_payload_def state_with_pending_def)
  have u: "unknown_request_id (context_reply (Some ''b'') []) ?st"
    by (simp add: unknown_request_id_def context_reply_def create_def empty_payload_def
        state_with_pending_def)
  show ?thesis
    using context_response_resolves [OF t1, of ?st ?ev] context_response_resolves [OF t2, of ?st ?ev]
      k u t1
    by (simp add: context_reply_def create_def empty_payload_def state_with_pending_def
        initial_state_def generation_sends_def)
qed

text \<open>
  Claim C2 as stated fails without an actor system: the entry is consumed and no message
  is sent.
\<close>

theorem context_response_without_system_counterexample:
  "map_of (pending_requests (state_with_pending False [(''a'', sample_entry ''u'' 0)])) ''a''
     = Some (sample_entry ''u'' 0) \<and>
   pending_requests (fst (handle_message (sample_env 100 ''r'' ''talk'')
      (context_reply (Some ''a'') [(''user'', ''hi'')])
      (state_with_pending False [(''a'', sample_entry ''u'' 0)]))) = [] \<and>
   sent (fst (handle_message (sample_env 100 ''r'' ''talk'')
      (context_reply (Some ''a'') [(''user'', ''hi'')])
      (state_with_pending False [(''a'', sample_entry ''u'' 0)]))) = []"
  by (simp add: handle_message_def handle_context_response_def context_reply_def create_def
      empty_payload_def state_with_pending_def initial_state_def log_call_def Let_def)

section \<open>Handling a user message\<close>

lemma get_or_create_session_result:
  "\<exists>st1 s. get_or_create_session t uid un st = (st1, Returned s) \<and>
     sessions st1 uid = Some s \<and> mode_history s = history_of st uid \<and>
     pending_requests st1 = pending_requests st \<and> actor_system st1 = actor_system st \<and>
     sent st1 = sent st \<and> (\<forall>u. u \<noteq> uid \<longrightarrow> sessions st1 u = sessions st u)"
proof (cases "sessions st uid")
  case None
  then show ?thesis
    by (simp add: get_or_create_session_def UserSession_init_def field_errors_def log_call_def
        append_event_def history_of_def)
next
  case (Some s)
  then show ?thesis
    by (simp add: get_or_create_session_def history_of_def)
qed

lemma request_context_returned:
  assumes "request_context ev uid chat tx b s st2 = (st', Returned r)"
  shows "actor_system st2 \<and> r = None \<and>
     pending_requests st' =
       AList.update (env_uuid4 ev)
         (pending_entry ev uid chat tx
            (s\<lparr>message_count := message_count s + 1, last_activity := env_now ev\<rparr>))
         (pending_requests st2) \<and>
     sent st' = sent st2 @ [(''memory'', get_context_msg uid (env_uuid4 ev))] \<and>
     sessions st' uid = Some (s\<lparr>message_count := message_count s + 1, last_activity := env_now ev\<rparr>)"
  using assms
  by (auto simp: request_context_def Let_def log_call_def append_event_def send_message_def
      split: if_splits)

lemma handle_user_message_returned:
  assumes "handle_user_message ev m st = (st', Returned r)"
  shows "\<exists>uid tx chat b s st2.
      pl_user_id (msg_payload m) = Some uid \<and> pl_text (msg_payload m) = Some tx \<and>
      pl_chat_id (msg_payload m) = Some chat \<and>
      request_context ev uid chat tx b s st2 = (st', Returned r) \<and>
      pending_requests st2 = pending_requests st \<and>
      actor_system st2 = actor_system st \<and>
      sent st2 = sent st @ (if actor_system st then [(''memory'', store_user_msg ev m uid tx)] else [])"
proof -
  from assms obtain uid where u: "pl_user_id (msg_payload m) = Some uid"
    by (cases "pl_user_id (msg_payload m)") (auto simp: handle_user_message_def)
  from assms u obtain tx where t: "pl_text (msg_payload m) = Some tx"
    by (cases "pl_text (msg_payload m)") (auto simp: handle_user_message_def)
  from assms u t obtain chat where c: "pl_chat_id (msg_payload m) = Some chat"
    by (cases "pl_chat_id (msg_payload m)") (auto simp: handle_user_message_def)
  obtain st1 s0 where g: "get_or_create_session (env_now ev) uid (pl_username (msg_payload m)) st
      = (st1, Returned s0)" and p1: "pending_requests st1 = pending_requests st"
      and a1: "actor_system st1 = actor_system st" and s1: "sent st1 = sent st"
    using get_or_create_session_result by blast
  define st2 where "st2 = (if actor_system st1
      then send_message ''memory'' (store_user_msg ev m uid tx) st1 else st1)"
  have props: "pending_requests st2 = pending_requests st" "actor_system st2 = actor_system st"
    "sent st2 = sent st @ (if actor_system st then [(''memory'', store_user_msg ev m uid tx)] else [])"
    by (simp_all add: st2_def send_message_def p1 a1 s1)
  from assms have "\<exists>b s. request_context ev uid chat tx b s st2 = (st', Returned r)"
    by (auto simp: handle_user_message_def u t c g Let_def st2_def store_user_msg_def
        simp del: setattr.simps split: prod.splits outcome.splits sum.splits) blast+
  then show ?thesis using u t c props by blast
qed

lemma record_mode_change_valid:
  "new_mode \<in> set valid_modes \<Longrightarrow>
   \<exists>s1 b. record_mode_change t new_mode s = (s1, Returned b) \<and> mode_history s1 = mode_history s"
  by (auto simp: record_mode_change_def validate_mode_def Let_def)

lemma set_confidence_valid:
  "confidence_in_range c \<Longrightarrow>
   \<exists>s2. setattr s1 (Set_mode_confidence c) = Inr s2 \<and> mode_history s2 = mode_history s1"
  by (cases c) (simp_all add: validate_confidence_def confidence_in_range_def)

lemma request_context_session:
  "\<exists>s3. sessions (fst (request_context ev uid chat tx b s st)) uid = Some s3 \<and>
        mode_history s3 = mode_history s"
  by (simp add: request_context_def Let_def log_call_def append_event_def send_message_def)

lemma request_context_attached:
  "actor_system st \<Longrightarrow> \<exists>st'. request_context ev uid chat tx b s st = (st', Returned None)"
  by (simp add: request_context_def Let_def log_call_def append_event_def send_message_def)

lemma handle_user_message_steps:
  assumes "user_message_for uid ev m"
  shows "\<exists>tx chat b s st2. handle_user_message ev m st = request_context ev uid chat tx b s st2 \<and>
           mode_history s = push_mode_history (fst (env_detected ev)) (history_of st uid) \<and>
           actor_system st2 = actor_system st"
proof -
  from assms obtain tx chat where
    pl: "pl_user_id (msg_payload m) = Some uid" "pl_text (msg_payload m) = Some tx"
        "pl_chat_id (msg_payload m) = Some chat"
    and vm: "fst (env_detected ev) \<in> set valid_modes"
    and vc: "confidence_in_range (snd (env_detected ev))"
    by (auto simp: user_message_for_def)
  obtain st1 s where g: "get_or_create_session (env_now ev) uid (pl_username (msg_payload m)) st
      = (st1, Returned s)" and h: "mode_history s = history_of st uid"
      and a1: "actor_system st1 = actor_system st"
    using get_or_create_session_result by blast
  obtain s1 b where r: "record_mode_change (env_now ev) (fst (env_detected ev)) s = (s1, Returned b)"
    and h1: "mode_history s1 = mode_history s"
    using record_mode_change_valid [OF vm] by blast
  obtain s2 where c: "setattr s1 (Set_mode_confidence (snd (env_detected ev))) = Inr s2"
    and h2: "mode_history s2 = mode_history s1"
    using set_confidence_valid [OF vc] by blast
  define st2 where "st2 = (if actor_system st1
      then send_message ''memory'' (store_user_msg ev m uid tx) st1 else st1)"
  have a2: "actor_system st2 = actor_system st"
    by (simp add: st2_def send_message_def a1)
  have "handle_user_message ev m st =
        request_context ev uid chat tx b
          (s2\<lparr>mode_history := push_mode_history (fst (env_detected ev)) (mode_history s2)\<rparr>) st2"
    by (simp add: handle_user_message_def pl g r c Let_def st2_def store_user_msg_def
        del: setattr.simps)
  moreover have "mode_history
      (s2\<lparr>mode_history := push_mode_history (fst (env_detected ev)) (mode_history s2)\<rparr>)
      = push_mode_history (fst (env_detected ev)) (history_of st uid)"
    by (simp add: h h1 h2)
  ultimately show ?thesis using a2 by blast
qed

lemma handle_user_message_history:
  assumes "user_message_for uid ev m"
  shows "history_of (fst (handle_user_message ev m st)) uid =
         push_mode_history (fst (env_detected ev)) (history_of st uid)"
proof -
  from handle_user_message_steps [OF assms, of st] obtain tx chat b s st2 where
    e: "handle_user_message ev m st = request_context ev uid chat tx b s st2"
    and h: "mode_history s = push_mode_history (fst (env_detected ev)) (history_of st uid)"
    by blast
  show ?thesis
    unfolding e using request_context_session [of ev uid chat tx b s st2] h
    by (auto simp: history_of_def)
qed

lemma handle_user_message_returns_None:
  "handle_user_message ev m st = (st', Returned r) \<Longrightarrow> r = None"
  using handle_user_message_returned request_context_returned by blast

lemma handle_message_user:
  "msg_type m = USER_MESSAGE \<Longrightarrow> handle_message ev m st = handle_user_message ev m st"
proof -
  assume t: "msg_type m = USER_MESSAGE"
  obtain st' o' where e: "handle_user_message ev m st = (st', o')" by (cases "handle_user_message ev m st")
  show ?thesis
  proof (cases o')
    case (Returned r)
    then have "r = None" using e handle_user_message_returns_None by blast
    then show ?thesis using t e Returned by (simp add: handle_message_def)
  next
    case (Raised x)
    then show ?thesis using t e by (simp add: handle_message_def)
  qed
qed

lemma push_mode_history_last_n:
  "length h \<le> MODE_HISTORY_SIZE \<Longrightarrow>
   push_mode_history x h = last_n MODE_HISTORY_SIZE (h @ [x])"
proof (cases "length h = MODE_HISTORY_SIZE")
  case True
  then have "h \<noteq> []" by (auto simp: MODE_HISTORY_SIZE_def)
  with True show ?thesis
    by (simp add: push_mode_history_def last_n_def Let_def MODE_HISTORY_SIZE_def drop_Suc)
next
  case False
  assume "length h \<le> MODE_HISTORY_SIZE"
  with False have "length h < MODE_HISTORY_SIZE" by simp
  then show ?thesis
    by (simp add: push_mode_history_def last_n_def Let_def MODE_HISTORY_SIZE_def)
qed

lemma length_last_n: "length (last_n n xs) \<le> n"
  by (simp add: last_n_def)

lemma last_n_append: "last_n n (last_n n xs @ ys) = last_n n (xs @ ys)"
proof (cases "length xs \<le> n")
  case True
  then show ?thesis by (simp add: last_n_def)
next
  case False
  then have "length ys + (length xs - n) = length xs + length ys - n" by simp
  with False show ?thesis by (simp add: last_n_def)
qed

lemma process_all_Cons:
  "process_all ((ev, m) # ms) st = process_all ms (fst (handle_message ev m st))"
  by (simp add: process_all_def)

lemma process_all_history:
  "\<forall>(ev, m) \<in> set ms. user_message_for uid ev m \<Longrightarrow>
   length (history_of st uid) \<le> MODE_HISTORY_SIZE \<Longrightarrow>
   history_of (process_all ms st) uid =
     last_n MODE_HISTORY_SIZE (history_of st uid @ map (\<lambda>(ev, m). fst (env_detected ev)) ms)"
proof (induction ms arbitrary: st)
  case Nil
  then show ?case by (simp add: process_all_def last_n_def)
next
  case (Cons a ms)
  obtain ev m where a: "a = (ev, m)" by (cases a)
  let ?st1 = "fst (handle_message ev m st)"
  have um: "user_message_for uid ev m" using Cons.prems(1) a by auto
  then have ty: "msg_type m = USER_MESSAGE" by (simp add: user_message_for_def)
  have h1: "history_of ?st1 uid =
      last_n MODE_HISTORY_SIZE (history_of st uid @ [fst (env_detected ev)])"
    using handle_user_message_history [OF um, of st] push_mode_history_last_n [OF Cons.prems(2)]
    by (simp add: handle_message_user [OF ty])
  have l1: "length (history_of ?st1 uid) \<le> MODE_HISTORY_SIZE"
    unfolding h1 by (rule length_last_n)
  have "history_of (process_all (a # ms) st) uid = history_of (process_all ms ?st1) uid"
    by (simp add: a process_all_Cons)
  also have "\<dots> = last_n MODE_HISTORY_SIZE
      (history_of ?st1 uid @ map (\<lambda>(ev, m). fst (env_detected ev)) ms)"
    using Cons.IH [OF _ l1] Cons.prems(1) by simp
  also have "\<dots> = last_n MODE_HISTORY_SIZE
      (history_of st uid @ map (\<lambda>(ev, m). fst (env_detected ev)) (a # ms))"
    unfolding h1 by (simp add: last_n_append a)
  finally show ?case .
qed

lemma filter_fresh_key:
  "k \<notin> fst ` set ps \<Longrightarrow> filter (\<lambda>(k', d). k' \<noteq> k) (ps @ [(k, v)]) = ps"
  by (induction ps) auto

lemma map_of_fresh_key:
  "k \<notin> fst ` set ps \<Longrightarrow> map_of (ps @ [(k, v)]) k = Some v"
  by (induction ps) auto

lemma user_message_returned:
  assumes ty: "msg_type m = USER_MESSAGE"
    and ret: "handle_message ev m st = (st', Returned r)"
    and fresh: "env_uuid4 ev \<notin> fst ` set (pending_requests st)"
  shows "r = None \<and> actor_system st \<and> actor_system st' \<and>
    (\<exists>uid tx chat s.
       pl_user_id (msg_payload m) = Some uid \<and> pl_text (msg_payload m) = Some tx \<and>
       pl_chat_id (msg_payload m) = Some chat \<and> sessions st' uid = Some s \<and>
       pending_requests st' =
         pending_requests st @ [(env_uuid4 ev, pending_entry ev uid chat tx s)] \<and>
       sent st' = sent st @ [(''memory'', store_user_msg ev m uid tx),
                             (''memory'', get_context_msg uid (env_uuid4 ev))])"
proof -
  from ret have hu: "handle_user_message ev m st = (st', Returned r)"
    by (simp add: handle_message_user [OF ty])
  from handle_user_message_returned [OF hu] obtain uid tx chat b s st2 where
    pl: "pl_user_id (msg_payload m) = Some uid" "pl_text (msg_payload m) = Some tx"
        "pl_chat_id (msg_payload m) = Some chat"
    and rc: "request_context ev uid chat tx b s st2 = (st', Returned r)"
    and p2: "pending_requests st2 = pending_requests st"
    and a2: "actor_system st2 = actor_system st"
    and s2: "sent st2 = sent st @
        (if actor_system st then [(''memory'', store_user_msg ev m uid tx)] else [])"
    by blast
  let ?s3 = "s\<lparr>message_count := message_count s + 1, last_activity := env_now ev\<rparr>"
  from request_context_returned [OF rc] have
    at: "actor_system st2" and rn: "r = None"
    and pr: "pending_requests st' =
       AList.update (env_uuid4 ev) (pending_entry ev uid chat tx ?s3) (pending_requests st2)"
    and se: "sent st' = sent st2 @ [(''memory'', get_context_msg uid (env_uuid4 ev))]"
    and ss: "sessions st' uid = Some ?s3"
    by blast+
  have at': "actor_system st'"
    using rc at by (auto simp: request_context_def Let_def log_call_def append_event_def
        send_message_def split: if_splits)
  have pr': "pending_requests st' =
       pending_requests st @ [(env_uuid4 ev, pending_entry ev uid chat tx ?s3)]"
    unfolding pr p2 using fresh by (rule update_fresh)
  have se': "sent st' = sent st @ [(''memory'', store_user_msg ev m uid tx),
                             (''memory'', get_context_msg uid (env_uuid4 ev))]"
    using se s2 at a2 by simp
  show ?thesis using rn at a2 at' pl ss pr' se' by auto
qed

lemma user_message_returns:
  assumes "actor_system st" and "user_message_for uid ev m"
  shows "\<exists>st'. handle_message ev m st = (st', Returned None)"
proof -
  from assms(2) have ty: "msg_type m = USER_MESSAGE" by (simp add: user_message_for_def)
  from handle_user_message_steps [OF assms(2), of st] obtain tx chat b s st2 where
    e: "handle_user_message ev m st = request_context ev uid chat tx b s st2"
    and a: "actor_system st2 = actor_system st" by blast
  show ?thesis
    unfolding handle_message_user [OF ty] e
    using request_context_attached [of st2 ev uid chat tx b s] a assms(1) by simp
qed

lemma pending_entry_fields:
  "p_user_id (pending_entry ev uid chat tx s) = uid \<and>
   p_chat_id (pending_entry ev uid chat tx s) = chat \<and>
   p_text (pending_entry ev uid chat tx s) = tx \<and>
   p_timestamp (pending_entry ev uid chat tx s) = env_now ev"
  by (simp add: pending_entry_def)

lemma get_context_msg_fields:
  "msg_type (get_context_msg uid rid) = GET_CONTEXT \<and>
   sender_id (get_context_msg uid rid) = actor_id \<and>
   reply_to (get_context_msg uid rid) = Some actor_id \<and>
   pl_request_id (msg_payload (get_context_msg uid rid)) = Some rid \<and>
   pl_user_id (msg_payload (get_context_msg uid rid)) = Some uid"
  by (simp add: get_context_msg_def create_def)

text \<open>
  Claim C3, as amended. Whenever the handler returns for a USER\_MESSAGE (the request id
  drawn being no key of the table yet), it returns no reply envelope; the table has
  gained exactly one entry, keyed by that request id and holding the user id, chat id
  and text of the payload and the instant of the call; and after the STORE\_MEMORY
  message the actor has sent to the memory actor one GET\_CONTEXT message that carries
  the request id and names the actor itself as \<open>reply_to\<close>. The reply, an ordinary
  CONTEXT\_RESPONSE with that request id handled later, consumes the entry and yields
  the GENERATE\_RESPONSE. The handler does return whenever the actor has an actor
  system, the payload carries user id, text and chat id, and the detected mode and
  confidence are valid for the session.
\<close>

theorem user_message_requests_context:
  assumes "msg_type m = USER_MESSAGE"
    and "env_uuid4 ev \<notin> fst ` set (pending_requests st)"
  shows
   "(\<forall>st' r. handle_message ev m st = (st', Returned r) \<longrightarrow>
      r = None \<and>
      (\<exists>uid tx chat p g.
         pl_user_id (msg_payload m) = Some uid \<and> pl_text (msg_payload m) = Some tx \<and>
         pl_chat_id (msg_payload m) = Some chat \<and>
         pending_requests st' = pending_requests st @ [(env_uuid4 ev, p)] \<and>
         p_user_id p = uid \<and> p_chat_id p = chat \<and> p_text p = tx \<and>
         p_timestamp p = env_now ev \<and>
         sent st' = sent st @ [(''memory'', store_user_msg ev m uid tx), (''memory'', g)] \<and>
         msg_type g = GET_CONTEXT \<and> sender_id g = actor_id \<and> reply_to g = Some actor_id \<and>
         pl_request_id (msg_payload g) = Some (env_uuid4 ev) \<and>
         (env_uuid4 ev \<noteq> [] \<longrightarrow>
            (\<forall>ev' ms. handle_message ev' (context_reply (Some (env_uuid4 ev)) ms) st' =
               (st'\<lparr>pending_requests := pending_requests st,
                    logged := logged st' @ [Info ''Created GENERATE_RESPONSE''],
                    sent := sent st' @ [(''generation'', generate_msg p ms)]\<rparr>,
                Returned None))))) \<and>
    (\<forall>uid. actor_system st \<and> user_message_for uid ev m \<longrightarrow>
       (\<exists>st'. handle_message ev m st = (st', Returned None)))"
proof (intro conjI allI impI)
  fix st' r assume ret: "handle_message ev m st = (st', Returned r)"
  from user_message_returned [OF assms(1) ret assms(2)] obtain uid tx chat s where
    rn: "r = None" and at: "actor_system st'"
    and pl: "pl_user_id (msg_payload m) = Some uid" "pl_text (msg_payload m) = Some tx"
        "pl_chat_id (msg_payload m) = Some chat"
    and pr: "pending_requests st' =
         pending_requests st @ [(env_uuid4 ev, pending_entry ev uid chat tx s)]"
    and se: "sent st' = sent st @ [(''memory'', store_user_msg ev m uid tx),
                             (''memory'', get_context_msg uid (env_uuid4 ev))]"
    by blast
  show "r = None" by (rule rn)
  let ?p = "pending_entry ev uid chat tx s"
  let ?g = "get_context_msg uid (env_uuid4 ev)"
  have rt: "env_uuid4 ev \<noteq> [] \<longrightarrow>
            (\<forall>ev' ms. handle_message ev' (context_reply (Some (env_uuid4 ev)) ms) st' =
               (st'\<lparr>pending_requests := pending_requests st,
                    logged := logged st' @ [Info ''Created GENERATE_RESPONSE''],
                    sent := sent st' @ [(''generation'', generate_msg ?p ms)]\<rparr>,
                Returned None))"
  proof (intro impI allI)
    fix ev' ms assume ne: "env_uuid4 ev \<noteq> []"
    have t: "msg_type (context_reply (Some (env_uuid4 ev)) ms) = CONTEXT_RESPONSE"
      and q: "pl_request_id (msg_payload (context_reply (Some (env_uuid4 ev)) ms)) = Some (env_uuid4 ev)"
      and ms: "pl_messages (msg_payload (context_reply (Some (env_uuid4 ev)) ms)) = Some ms"
      by (simp_all add: context_reply_def create_def empty_payload_def)
    have lk: "map_of (pending_requests st') (env_uuid4 ev) = Some ?p"
      unfolding pr using assms(2) by (rule map_of_fresh_key)
    show "handle_message ev' (context_reply (Some (env_uuid4 ev)) ms) st' =
               (st'\<lparr>pending_requests := pending_requests st,
                    logged := logged st' @ [Info ''Created GENERATE_RESPONSE''],
                    sent := sent st' @ [(''generation'', generate_msg ?p ms)]\<rparr>,
                Returned None)"
      unfolding context_response_known [OF t q ne lk] ms
      using at filter_fresh_key [OF assms(2), of ?p]
      by (simp add: generation_sends_def pr)
  qed
  show "\<exists>uid tx chat p g.
         pl_user_id (msg_payload m) = Some uid \<and> pl_text (msg_payload m) = Some tx \<and>
         pl_chat_id (msg_payload m) = Some chat \<and>
         pending_requests st' = pending_requests st @ [(env_uuid4 ev, p)] \<and>
         p_user_id p = uid \<and> p_chat_id p = chat \<and> p_text p = tx \<and>
         p_timestamp p = env_now ev \<and>
         sent st' = sent st @ [(''memory'', store_user_msg ev m uid tx), (''memory'', g)] \<and>
         msg_type g = GET_CONTEXT \<and> sender_id g = actor_id \<and> reply_to g = Some actor_id \<and>
         pl_request_id (msg_payload g) = Some (env_uuid4 ev) \<and>
         (env_uuid4 ev \<noteq> [] \<longrightarrow>
            (\<forall>ev' ms. handle_message ev' (context_reply (Some (env_uuid4 ev)) ms) st' =
               (st'\<lparr>pending_requests := pending_requests st,
                    logged := logged st' @ [Info ''Created GENERATE_RESPONSE''],
                    sent := sent st' @ [(''generation'', generate_msg p ms)]\<rparr>,
                Returned None)))"
    apply (rule exI [of _ uid], rule exI [of _ tx], rule exI [of _ chat])
    apply (rule exI [of _ ?p], rule exI [of _ ?g])
    using pl pr se rt pending_entry_fields [of ev uid chat tx s]
      get_context_msg_fields [of uid "env_uuid4 ev"]
    apply (intro conjI)
    apply blast+
    done
next
  fix uid assume "actor_system st \<and> user_message_for uid ev m"
  then show "\<exists>st'. handle_message ev m st = (st', Returned None)"
    using user_message_returns by blast
qed

theorem user_message_requests_context_witness:
  "msg_type (user_msg ''u1'' ''hello'') = USER_MESSAGE \<and>
   env_uuid4 (sample_env 100 ''r1'' ''expert'') \<notin> fst ` set (pending_requests (initial_state True)) \<and>
   actor_system (initial_state True) \<and>
   user_message_for ''u1'' (sample_env 100 ''r1'' ''expert'') (user_msg ''u1'' ''hello'') \<and>
   (\<exists>st' p g. handle_message (sample_env 100 ''r1'' ''expert'') (user_msg ''u1'' ''hello'')
                (initial_state True) = (st', Returned None) \<and>
      pending_requests st' = [(''r1'', p)] \<and>
      p_user_id p = ''u1'' \<and> p_text p = ''hello'' \<and> p_chat_id p = 12345 \<and> p_timestamp p = 100 \<and>
      sent st' = [(''memory'', store_user_msg (sample_env 100 ''r1'' ''expert'')
                                 (user_msg ''u1'' ''hello'') ''u1'' ''hello''),
                  (''memory'', g)] \<and>
      msg_type g = GET_CONTEXT \<and> reply_to g = Some actor_id \<and>
      pl_request_id (msg_payload g) = Some ''r1'')"
proof -
  let ?ev = "sample_env 100 ''r1'' ''expert''"
  let ?m = "user_msg ''u1'' ''hello''"
  let ?st = "initial_state True"
  have ty: "msg_type ?m = USER_MESSAGE" by (simp add: user_msg_def create_def)
  have fr: "env_uuid4 ?ev \<notin> fst ` set (pending_requests ?st)"
    by (simp add: initial_state_def)
  have at: "actor_system ?st" by (simp add: initial_state_def)
  have um: "user_message_for ''u1'' ?ev ?m"
    by (simp add: user_message_for_def user_msg_def create_def empty_payload_def sample_env_def
        valid_modes_def confidence_in_range_def PYDANTIC_CONFIDENCE_MIN_def
        PYDANTIC_CONFIDENCE_MAX_def)
  have pl: "pl_user_id (msg_payload ?m) = Some ''u1''" "pl_text (msg_payload ?m) = Some ''hello''"
    "pl_chat_id (msg_payload ?m) = Some 12345"
    by (simp_all add: user_msg_def create_def empty_payload_def)
  have ev: "env_uuid4 ?ev = ''r1''" "env_now ?ev = 100" by (simp_all add: sample_env_def)
  have pe: "pending_requests ?st = []" "sent ?st = []" by (simp_all add: initial_state_def)
  note th = user_message_requests_context [OF ty fr]
  from th at um obtain st' where r: "handle_message ?ev ?m ?st = (st', Returned None)"
    by blast
  from th r obtain uid tx chat p g where
    "pl_user_id (msg_payload ?m) = Some uid" "pl_text (msg_payload ?m) = Some tx"
    "pl_chat_id (msg_payload ?m) = Some chat"
    "pending_requests st' = pending_requests ?st @ [(env_uuid4 ?ev, p)]"
    "p_user_id p = uid" "p_chat_id p = chat" "p_text p = tx" "p_timestamp p = env_now ?ev"
    "sent st' = sent ?st @ [(''memory'', store_user_msg ?ev ?m uid tx), (''memory'', g)]"
    "msg_type g = GET_CONTEXT" "reply_to g = Some actor_id"
    "pl_request_id (msg_payload g) = Some (env_uuid4 ?ev)"
    by blast
  then have "pending_requests st' = [(''r1'', p)] \<and>
      p_user_id p = ''u1'' \<and> p_text p = ''hello'' \<and> p_chat_id p = 12345 \<and> p_timestamp p = 100 \<and>
      sent st' = [(''memory'', store_user_msg ?ev ?m ''u1'' ''hello''), (''memory'', g)] \<and>
      msg_type g = GET_CONTEXT \<and> reply_to g = Some actor_id \<and>
      pl_request_id (msg_payload g) = Some ''r1''"
    using pl ev pe by simp
  with r ty fr at um show ?thesis by blast
qed

text \<open>
  Claim C3 as stated fails for an actor without an actor system. Here the user has a
  session, the detected mode is the session's mode and no prompt is included, so that no
  event is appended: the entry is saved, no GET\_CONTEXT is sent, and the handler raises
  at the send instead of returning.
\<close>

theorem user_message_without_system_counterexample:
  "msg_type (user_msg ''u1'' ''hello'') = USER_MESSAGE \<and>
   snd (handle_message (quiet_env 100 ''r1'') (user_msg ''u1'' ''hello'')
          (state_with_session False (sample_session ''u1''))) =
     Raised (AttributeError ''send_message'') \<and>
   sent (fst (handle_message (quiet_env 100 ''r1'') (user_msg ''u1'' ''hello'')
          (state_with_session False (sample_session ''u1'')))) = [] \<and>
   map fst (pending_requests (fst (handle_message (quiet_env 100 ''r1'')
          (user_msg ''u1'' ''hello'') (state_with_session False (sample_session ''u1''))))) = [''r1''] \<and>
   appended (fst (handle_message (quiet_env 100 ''r1'') (user_msg ''u1'' ''hello'')
          (state_with_session False (sample_session ''u1'')))) = []"
  by (simp add: handle_message_def handle_user_message_def get_or_create_session_def
      record_mode_change_def validate_mode_def
      validate_confidence_def valid_modes_def PYDANTIC_CONFIDENCE_MIN_def
      PYDANTIC_CONFIDENCE_MAX_def request_context_def user_msg_def create_def
      empty_payload_def quiet_env_def state_with_session_def sample_session_def
      initial_state_def log_call_def append_event_def
      send_message_def Let_def)

section \<open>The history of modes\<close>

lemma get_or_create_session_inv:
  assumes "actor_invariant st"
  shows "\<exists>st1 s. get_or_create_session t uid un st = (st1, Returned s) \<and>
     sessions st1 = (sessions st)(uid \<mapsto> s) \<and> mode_history s = history_of st uid \<and>
     session_ok s \<and> length (mode_history s) \<le> MODE_HISTORY_SIZE"
proof (cases "sessions st uid")
  case None
  then show ?thesis
    by (simp add: get_or_create_session_def UserSession_init_def field_errors_def log_call_def
        append_event_def history_of_def session_ok_def valid_modes_def confidence_in_range_def
        PYDANTIC_CONFIDENCE_MIN_def PYDANTIC_CONFIDENCE_MAX_def)
next
  case (Some s)
  then have "(sessions st)(uid \<mapsto> s) = sessions st" by (simp add: fun_upd_idem)
  then show ?thesis
    using Some assms by (auto simp: get_or_create_session_def history_of_def actor_invariant_def)
qed

lemma request_context_sessions:
  "sessions (fst (request_context ev uid chat tx b s st)) =
     (sessions st)(uid \<mapsto> s\<lparr>message_count := message_count s + 1, last_activity := env_now ev\<rparr>)"
  by (simp add: request_context_def Let_def log_call_def append_event_def send_message_def)

lemma set_confidence_invalid:
  "\<not> confidence_in_range c \<Longrightarrow>
   setattr s (Set_mode_confidence c) = Inl (ValidationError [''mode_confidence''])"
  by (cases c) (simp_all add: validate_confidence_def confidence_in_range_def)

lemma set_confidence_ok:
  "confidence_in_range c \<Longrightarrow> setattr s (Set_mode_confidence c) = Inr (s\<lparr>mode_confidence := c\<rparr>)"
  by (cases c) (simp_all add: validate_confidence_def confidence_in_range_def)

lemma record_mode_change_cases:
  "session_ok s \<Longrightarrow>
   record_mode_change t nm s =
     (if nm = current_mode s then (s, Returned False)
      else if nm \<in> set valid_modes
           then (s\<lparr>last_mode_change := Some t, current_mode := nm\<rparr>, Returned True)
           else (s\<lparr>last_mode_change := Some t\<rparr>, Raised (ValidationError [''current_mode''])))"
  by (simp add: record_mode_change_def validate_mode_def Let_def)

text \<open>What handling a user message does to the sessions.\<close>

lemma handle_user_message_effect:
  assumes inv: "actor_invariant st" and ty: "msg_type m = USER_MESSAGE"
    and u: "pl_user_id (msg_payload m) = Some u"
  shows "\<exists>s'. (sessions (fst (handle_user_message ev m st)) = sessions st \<and> \<not> user_message_for u ev m
              \<or> sessions (fst (handle_user_message ev m st)) = (sessions st)(u \<mapsto> s') \<and>
                session_ok s' \<and>
                mode_history s' =
                  (if user_message_for u ev m
                   then push_mode_history (fst (env_detected ev)) (history_of st u)
                   else history_of st u))"
proof (cases "pl_text (msg_payload m)")
  case None
  then show ?thesis using u by (simp add: handle_user_message_def user_message_for_def)
next
  case (Some tx)
  note tx = Some
  show ?thesis
  proof (cases "pl_chat_id (msg_payload m)")
    case None
    then show ?thesis using u tx by (simp add: handle_user_message_def user_message_for_def)
  next
    case (Some chat)
    obtain st1 s where g: "get_or_create_session (env_now ev) u (pl_username (msg_payload m)) st
        = (st1, Returned s)" and s1: "sessions st1 = (sessions st)(u \<mapsto> s)"
        and h: "mode_history s = history_of st u" and ok: "session_ok s"
      using get_or_create_session_inv [OF inv] by blast
    define st2 where "st2 = (if actor_system st1
        then send_message ''memory'' (store_user_msg ev m u tx) st1 else st1)"
    have s2: "sessions st2 = (sessions st)(u \<mapsto> s)"
      by (simp add: st2_def send_message_def s1)
    let ?nm = "fst (env_detected ev)" and ?c = "snd (env_detected ev)"
    have cm: "current_mode s \<in> set valid_modes" using ok by (simp add: session_ok_def)
    have wf: "user_message_for u ev m = (?nm \<in> set valid_modes \<and> confidence_in_range ?c)"
      using ty u tx Some by (simp add: user_message_for_def)
    have hum: "handle_user_message ev m st =
        (case record_mode_change (env_now ev) ?nm s of
           (s1, Raised e) \<Rightarrow> (st2\<lparr>sessions := (sessions st2)(u \<mapsto> s1)\<rparr>, Raised e)
         | (s1, Returned mode_changed) \<Rightarrow>
             (case setattr s1 (Set_mode_confidence ?c) of
                Inl e \<Rightarrow> (st2\<lparr>sessions := (sessions st2)(u \<mapsto> s1)\<rparr>, Raised e)
              | Inr s2 \<Rightarrow>
                  request_context ev u chat tx mode_changed
                    (s2\<lparr>mode_history := push_mode_history ?nm (mode_history s2)\<rparr>) st2))"
      unfolding st2_def
      by (simp add: handle_user_message_def u tx Some g Let_def del: setattr.simps)
    show ?thesis
    proof (cases "?nm = current_mode s \<or> ?nm \<in> set valid_modes")
      case False
      then have "handle_user_message ev m st =
          (st2\<lparr>sessions := (sessions st2)(u \<mapsto> s\<lparr>last_mode_change := Some (env_now ev)\<rparr>)\<rparr>,
           Raised (ValidationError [''current_mode'']))"
        unfolding hum record_mode_change_cases [OF ok] by simp
      then show ?thesis
        using False ok h wf s2
        by (intro exI [of _ "s\<lparr>last_mode_change := Some (env_now ev)\<rparr>"])
           (simp add: session_ok_def)
    next
      case True
      then have vm: "?nm \<in> set valid_modes" using cm by auto
      define r1 where "r1 = (if ?nm = current_mode s then s
                             else s\<lparr>last_mode_change := Some (env_now ev), current_mode := ?nm\<rparr>)"
      have rm: "record_mode_change (env_now ev) ?nm s = (r1, Returned (?nm \<noteq> current_mode s))"
        unfolding record_mode_change_cases [OF ok] using vm by (simp add: r1_def)
      have r1ok: "session_ok r1" and r1h: "mode_history r1 = history_of st u"
        using ok vm h by (auto simp: r1_def session_ok_def)
      show ?thesis
      proof (cases "confidence_in_range ?c")
        case False
        have "handle_user_message ev m st =
            (st2\<lparr>sessions := (sessions st2)(u \<mapsto> r1)\<rparr>,
             Raised (ValidationError [''mode_confidence'']))"
          unfolding hum rm using set_confidence_invalid [OF False, of r1]
          by (simp del: setattr.simps)
        then show ?thesis
          using False r1ok r1h wf s2 by (intro exI [of _ r1]) simp
      next
        case True
        let ?s2 = "r1\<lparr>mode_confidence := ?c\<rparr>"
        let ?s3 = "?s2\<lparr>mode_history := push_mode_history ?nm (mode_history ?s2)\<rparr>"
        let ?s4 = "?s3\<lparr>message_count := message_count ?s3 + 1, last_activity := env_now ev\<rparr>"
        have "handle_user_message ev m st =
            request_context ev u chat tx (?nm \<noteq> current_mode s) ?s3 st2"
          unfolding hum rm using set_confidence_ok [OF True, of r1]
          by (simp del: setattr.simps)
        then have "sessions (fst (handle_user_message ev m st)) = (sessions st)(u \<mapsto> ?s4)"
          by (simp add: request_context_sessions s2)
        moreover have "session_ok ?s4" using r1ok True by (simp add: session_ok_def)
        moreover have "mode_history ?s4 = push_mode_history ?nm (history_of st u)"
          by (simp add: r1h)
        ultimately show ?thesis
          using wf vm True by (intro exI [of _ ?s4]) simp
      qed
    qed
  qed
qed

lemma same_sessions:
  "sessions st' = sessions st \<Longrightarrow>
   actor_invariant st' = actor_invariant st \<and> history_of st' uid = history_of st uid"
  by (simp add: actor_invariant_def history_of_def)

lemma invariant_history_length:
  "actor_invariant st \<Longrightarrow> length (history_of st uid) \<le> MODE_HISTORY_SIZE"
  by (cases "sessions st uid") (auto simp: actor_invariant_def history_of_def)

lemma length_push_mode_history:
  "length h \<le> MODE_HISTORY_SIZE \<Longrightarrow> length (push_mode_history x h) \<le> MODE_HISTORY_SIZE"
  by (simp add: push_mode_history_last_n length_last_n)

lemma invariant_update:
  "actor_invariant st \<Longrightarrow> sessions st' = (sessions st)(u \<mapsto> s') \<Longrightarrow> session_ok s' \<Longrightarrow>
   length (mode_history s') \<le> MODE_HISTORY_SIZE \<Longrightarrow> actor_invariant st'"
  by (simp add: actor_invariant_def)

lemma update_cache_metrics_sessions:
  "actor_invariant st \<Longrightarrow>
   actor_invariant (update_cache_metrics m st) \<and>
   history_of (update_cache_metrics m st) uid = history_of st uid"
  by (auto simp: update_cache_metrics_def Let_def actor_invariant_def history_of_def
      session_ok_def split: option.splits)

lemma handle_bot_response_sessions:
  "sessions (fst (handle_bot_response ev m st)) = sessions st"
  by (auto simp: handle_bot_response_def send_message_def split: option.splits)

lemma handle_context_response_sessions:
  "sessions (fst (handle_context_response m st)) = sessions st"
  by (auto simp: handle_context_response_def Let_def log_call_def send_message_def
      split: option.splits)

lemma handle_user_message_step:
  assumes inv: "actor_invariant st" and ty: "msg_type m = USER_MESSAGE"
  shows "actor_invariant (fst (handle_user_message ev m st)) \<and>
     history_of (fst (handle_user_message ev m st)) uid =
       (if user_message_for uid ev m
        then push_mode_history (fst (env_detected ev)) (history_of st uid)
        else history_of st uid)"
proof (cases "pl_user_id (msg_payload m)")
  case None
  then show ?thesis using inv by (simp add: handle_user_message_def user_message_for_def)
next
  case (Some u)
  let ?st' = "fst (handle_user_message ev m st)"
  from handle_user_message_effect [OF inv ty Some, of ev] obtain s' where
    alt: "sessions ?st' = sessions st \<and> \<not> user_message_for u ev m
          \<or> sessions ?st' = (sessions st)(u \<mapsto> s') \<and> session_ok s' \<and>
            mode_history s' =
              (if user_message_for u ev m
               then push_mode_history (fst (env_detected ev)) (history_of st u)
               else history_of st u)"
    by blast
  have other: "uid \<noteq> u \<Longrightarrow> \<not> user_message_for uid ev m"
    using Some by (auto simp: user_message_for_def)
  from alt show ?thesis
  proof
    assume a: "sessions ?st' = sessions st \<and> \<not> user_message_for u ev m"
    then show ?thesis
      using same_sessions [of ?st' st uid] inv other by (cases "uid = u") auto
  next
    assume b: "sessions ?st' = (sessions st)(u \<mapsto> s') \<and> session_ok s' \<and>
            mode_history s' =
              (if user_message_for u ev m
               then push_mode_history (fst (env_detected ev)) (history_of st u)
               else history_of st u)"
    have len: "length (mode_history s') \<le> MODE_HISTORY_SIZE"
      using b invariant_history_length [OF inv, of u] length_push_mode_history by auto
    have i: "actor_invariant ?st'"
      using invariant_update [OF inv _ _ len] b by blast
    have h: "history_of ?st' uid =
       (if user_message_for uid ev m
        then push_mode_history (fst (env_detected ev)) (history_of st uid)
        else history_of st uid)"
    proof (cases "uid = u")
      case True
      then show ?thesis using b by (simp add: history_of_def)
    next
      case False
      then show ?thesis using b other by (simp add: history_of_def)
    qed
    from i h show ?thesis by simp
  qed
qed

lemma handle_message_step:
  assumes inv: "actor_invariant st"
  shows "actor_invariant (fst (handle_message ev m st)) \<and>
     history_of (fst (handle_message ev m st)) uid =
       (if user_message_for uid ev m
        then push_mode_history (fst (env_detected ev)) (history_of st uid)
        else history_of st uid)"
proof (cases "msg_type m = USER_MESSAGE")
  case True
  then show ?thesis
    using handle_user_message_step [OF inv True, of ev uid] by (simp add: handle_message_user)
next
  case False
  then have n: "\<not> user_message_for uid ev m" by (simp add: user_message_for_def)
  show ?thesis
    using False n inv update_cache_metrics_sessions [OF inv, of m uid]
      same_sessions [OF handle_bot_response_sessions, of ev m st uid]
      same_sessions [OF handle_context_response_sessions, of m st uid]
    by (simp add: handle_message_def)
qed

lemma detected_modes_Cons:
  "detected_modes uid ((ev, m) # ms) =
     (if user_message_for uid ev m then [fst (env_detected ev)] else []) @ detected_modes uid ms"
  by (simp add: detected_modes_def)

lemma process_all_invariant:
  "actor_invariant st \<Longrightarrow>
   actor_invariant (process_all ms st) \<and>
   history_of (process_all ms st) uid =
     last_n MODE_HISTORY_SIZE (history_of st uid @ detected_modes uid ms)"
proof (induction ms arbitrary: st)
  case Nil
  then show ?case
    using invariant_history_length [OF Nil.prems, of uid]
    by (simp add: process_all_def detected_modes_def last_n_def)
next
  case (Cons a ms)
  obtain ev m where a: "a = (ev, m)" by (cases a)
  let ?st1 = "fst (handle_message ev m st)"
  have i1: "actor_invariant ?st1" using handle_message_step [OF Cons.prems] by blast
  have l0: "length (history_of st uid) \<le> MODE_HISTORY_SIZE"
    using invariant_history_length [OF Cons.prems] .
  have h1: "history_of ?st1 uid =
      last_n MODE_HISTORY_SIZE (history_of st uid @
        (if user_message_for uid ev m then [fst (env_detected ev)] else []))"
    using handle_message_step [OF Cons.prems, of ev m uid] push_mode_history_last_n [OF l0] l0
    by (simp add: last_n_def)
  have "history_of (process_all (a # ms) st) uid = history_of (process_all ms ?st1) uid"
    by (simp add: a process_all_Cons)
  also have "\<dots> = last_n MODE_HISTORY_SIZE (history_of ?st1 uid @ detected_modes uid ms)"
    using Cons.IH [OF i1] by simp
  also have "\<dots> = last_n MODE_HISTORY_SIZE (history_of st uid @ detected_modes uid (a # ms))"
    unfolding h1 last_n_append by (simp add: a detected_modes_Cons)
  finally have h: "history_of (process_all (a # ms) st) uid =
      last_n MODE_HISTORY_SIZE (history_of st uid @ detected_modes uid (a # ms))" .
  have "actor_invariant (process_all (a # ms) st)"
    using Cons.IH [OF i1] by (simp add: a process_all_Cons)
  with h show ?case by simp
qed

lemma initial_state_invariant: "actor_invariant (initial_state attached)"
  by (simp add: actor_invariant_def initial_state_def)

text \<open>
  Claim C10, as amended. Let the sessions of the actor be valid and hold at most
  \<open>MODE_HISTORY_SIZE\<close> modes each, as they do after \<open>__init__\<close> and after every
  message. After the actor has handled any sequence of messages, of any types and users
  and whether their handlers returned or raised, the \<open>mode_history\<close> of a user's
  session holds at most \<open>MODE_HISTORY_SIZE\<close> modes and is exactly the last
  \<open>MODE_HISTORY_SIZE\<close> elements of what it held before followed by the modes detected,
  in detection order, for the user messages of that user that carry user id, text and
  chat id and whose detected mode and confidence are valid: each such message appends
  its mode, the oldest entry being removed when the bound is exceeded. Every other
  message leaves the history as it is; in particular a user message that lacks one of
  the keys raises a key error before any mode is detected.
\<close>

theorem mode_history_recent:
  "actor_invariant st \<Longrightarrow>
   history_of (process_all ms st) uid =
     last_n MODE_HISTORY_SIZE (history_of st uid @ detected_modes uid ms) \<and>
   length (history_of (process_all ms st) uid) \<le> MODE_HISTORY_SIZE \<and>
   actor_invariant (process_all ms st)"
  using process_all_invariant [of st ms uid] length_last_n by simp

theorem mode_history_recent_witness:
  "actor_invariant (initial_state True) \<and>
   detected_modes ''u1'' mixed_run =
     [''talk'', ''expert'', ''creative'', ''talk'', ''talk'', ''expert'', ''base''] \<and>
   history_of (process_all mixed_run (initial_state True)) ''u1'' =
     [''creative'', ''talk'', ''talk'', ''expert'', ''base'']"
proof -
  have i: "actor_invariant (initial_state True)" by (rule initial_state_invariant)
  have h0: "history_of (initial_state True) ''u1'' = []"
    by (simp add: history_of_def initial_state_def)
  have dm: "detected_modes ''u1'' mixed_run =
     [''talk'', ''expert'', ''creative'', ''talk'', ''talk'', ''expert'', ''base'']"
    by (simp add: detected_modes_def mixed_run_def user_message_for_def user_msg_def
        user_msg_without_chat_def context_reply_def create_def empty_payload_def
        sample_env_def quiet_env_def valid_modes_def confidence_in_range_def
        PYDANTIC_CONFIDENCE_MIN_def PYDANTIC_CONFIDENCE_MAX_def)
  have ln: "last_n MODE_HISTORY_SIZE
       [''talk'', ''expert'', ''creative'', ''talk'', ''talk'', ''expert'', ''base'']
     = [''creative'', ''talk'', ''talk'', ''expert'', ''base'']"
    by (simp add: last_n_def MODE_HISTORY_SIZE_def)
  show ?thesis
    using mode_history_recent [OF i, of mixed_run "''u1''"] i dm
    by (simp add: h0 ln)
qed

text \<open>
  Claim C10 as stated fails on a user message without chat id: the handler raises a key
  error and the history of the session holds the same modes as before.
\<close>

theorem user_message_without_chat_counterexample:
  "msg_type (user_msg_without_chat ''u1'' ''hello'') = USER_MESSAGE \<and>
   snd (handle_message (quiet_env 100 ''r1'') (user_msg_without_chat ''u1'' ''hello'')
          (state_with_session True (sample_session ''u1''))) = Raised (KeyError ''chat_id'') \<and>
   history_of (state_with_session True (sample_session ''u1'')) ''u1'' = [''talk''] \<and>
   history_of (process_all [(quiet_env 100 ''r1'', user_msg_without_chat ''u1'' ''hello'')]
                 (state_with_session True (sample_session ''u1''))) ''u1'' = [''talk'']"
  by (simp add: process_all_def handle_message_def handle_user_message_def
      user_msg_without_chat_def create_def empty_payload_def history_of_def
      state_with_session_def sample_session_def initial_state_def)

section \<open>The keys of the pending-request table\<close>

text \<open>
  The table is a dictionary: its keys stay distinct under every operation of the actor,
  starting from the empty table of \<open>__init__\<close>.
\<close>

lemma pop_expired_keys:
  "distinct (map fst (pending_requests st)) \<Longrightarrow>
   distinct (map fst (pending_requests (fst (pop_expired ids st))))"
proof (induction ids arbitrary: st)
  case Nil
  then show ?case by simp
next
  case (Cons k ids)
  show ?case
  proof (cases "map_of (pending_requests st) k")
    case None
    then show ?thesis using Cons.prems by simp
  next
    case (Some p)
    let ?st1 = "st\<lparr>pending_requests := AList.delete k (pending_requests st)\<rparr>"
    let ?st2 = "log_call (Warning ''Context request timeout'') ?st1"
    let ?st3 = "if actor_system ?st2 then send_message ''generation'' (generate_msg p []) ?st2 else ?st2"
    have "distinct (map fst (pending_requests ?st3))"
      using Cons.prems by (simp add: log_call_def send_message_def distinct_delete)
    from Cons.IH [OF this] show ?thesis using Some by (simp add: Let_def)
  qed
qed

lemma get_or_create_session_pending:
  "get_or_create_session t uid un st = (st1, out) \<Longrightarrow> pending_requests st1 = pending_requests st"
  by (auto simp: get_or_create_session_def log_call_def append_event_def
      split: option.splits sum.splits)

lemma request_context_keys:
  "distinct (map fst (pending_requests st2)) \<Longrightarrow>
   distinct (map fst (pending_requests (fst (request_context ev uid chat tx b s st2))))"
  by (simp add: request_context_def Let_def log_call_def append_event_def send_message_def
      distinct_update)

lemma handle_user_message_keys:
  "distinct (map fst (pending_requests st)) \<Longrightarrow>
   distinct (map fst (pending_requests (fst (handle_user_message ev m st))))"
  by (auto simp: handle_user_message_def Let_def send_message_def
      split: option.splits prod.splits outcome.splits sum.splits
      simp del: setattr.simps dest!: get_or_create_session_pending intro!: request_context_keys)

lemma handle_message_keys:
  "distinct (map fst (pending_requests st)) \<Longrightarrow>
   distinct (map fst (pending_requests (fst (handle_message ev m st))))"
proof -
  assume d: "distinct (map fst (pending_requests st))"
  have u: "msg_type m = USER_MESSAGE \<Longrightarrow> ?thesis"
    using handle_user_message_keys [OF d, of ev m] by (simp add: handle_message_user)
  have c: "distinct (map fst (pending_requests (fst (handle_context_response m st))))"
    using d by (auto simp: handle_context_response_def Let_def log_call_def send_message_def
        distinct_delete split: option.splits)
  have b: "pending_requests (fst (handle_bot_response ev m st)) = pending_requests st"
    by (auto simp: handle_bot_response_def send_message_def split: option.splits)
  have k: "pending_requests (update_cache_metrics m st) = pending_requests st"
    by (auto simp: update_cache_metrics_def Let_def split: option.splits)
  show ?thesis
    using u c b k d by (cases "msg_type m = USER_MESSAGE") (auto simp: handle_message_def)
qed

lemma initial_state_keys: "distinct (map fst (pending_requests (initial_state attached)))"
  by (simp add: initial_state_def)

lemma process_all_keys:
  "distinct (map fst (pending_requests st)) \<Longrightarrow>
   distinct (map fst (pending_requests (process_all ms st)))"
proof (induction ms arbitrary: st)
  case Nil
  then show ?case by (simp add: process_all_def)
next
  case (Cons a ms)
  obtain ev m where a: "a = (ev, m)" by (cases a)
  show ?case
    using Cons.IH [OF handle_message_keys [OF Cons.prems, of ev m]]
    by (simp add: a process_all_Cons)
qed

lemma cleanup_keys:
  "distinct (map fst (pending_requests st)) \<Longrightarrow>
   distinct (map fst (pending_requests (fst (cleanup_expired_requests t st))))"
  unfolding cleanup_expired_requests_def by (rule pop_expired_keys)

section \<open>The bounded buffer of the short-term memory\<close>

lemma last_n_short: "length xs \<le> n \<Longrightarrow> last_n n xs = xs"
  by (simp add: last_n_def)

lemma stm_store_same: "stm_store capacity key r buf key = last_n capacity (buf key @ [r])"
  by (simp add: stm_store_def last_n_def Let_def)

lemma stm_store_other: "key' \<noteq> key \<Longrightarrow> stm_store capacity key r buf key' = buf key'"
  by (simp add: stm_store_def)

lemma stm_store_all_Cons:
  "stm_store_all capacity ((k, r) # rs) buf = stm_store_all capacity rs (stm_store capacity k r buf)"
  by (simp add: stm_store_all_def)

lemma stm_store_all_key:
  "length (buf key) \<le> capacity \<Longrightarrow>
   stm_store_all capacity rs buf key = last_n capacity (buf key @ records_of key rs)"
proof (induction rs arbitrary: buf)
  case Nil
  then show ?case by (simp add: stm_store_all_def records_of_def last_n_short)
next
  case (Cons a rs)
  obtain k r where a: "a = (k, r)" by (cases a)
  show ?case
  proof (cases "k = key")
    case True
    have l: "length (stm_store capacity k r buf key) \<le> capacity"
      unfolding True stm_store_same by (rule length_last_n)
    show ?thesis
      unfolding a stm_store_all_Cons Cons.IH [of "stm_store capacity k r buf", OF l]
      using True by (simp add: stm_store_same last_n_append records_of_def)
  next
    case False
    then have e: "stm_store capacity k r buf key = buf key" by (simp add: stm_store_other)
    show ?thesis
      unfolding a stm_store_all_Cons
      using Cons.IH [of "stm_store capacity k r buf"] Cons.prems False
      by (simp add: e records_of_def)
  qed
qed

lemma memory_store_step:
  "\<not> degraded_mode a \<Longrightarrow>
   memory_handle_message (store_msg uid k c) a =
     (a\<lparr>store_memory_count := store_memory_count a + 1,
         stm_buffer := stm_store STM_BUFFER_SIZE uid (k, c) (stm_buffer a)\<rparr>, Returned None)"
  by (simp add: memory_handle_message_def store_msg_def create_def store_payload_def
      empty_payload_def Let_def)

lemma memory_store_run:
  "\<not> degraded_mode a \<Longrightarrow>
   \<not> degraded_mode (memory_process_all (map (\<lambda>(k, c). store_msg uid k c) rs) a) \<and>
   stm_buffer (memory_process_all (map (\<lambda>(k, c). store_msg uid k c) rs) a) =
     stm_store_all STM_BUFFER_SIZE (map (Pair uid) rs) (stm_buffer a)"
proof (induction rs arbitrary: a)
  case Nil
  then show ?case by (simp add: memory_process_all_def stm_store_all_def)
next
  case (Cons r rs)
  obtain k c where r: "r = (k, c)" by (cases r)
  let ?a1 = "a\<lparr>store_memory_count := store_memory_count a + 1,
         stm_buffer := stm_store STM_BUFFER_SIZE uid (k, c) (stm_buffer a)\<rparr>"
  have s: "memory_process_all (map (\<lambda>(k, c). store_msg uid k c) (r # rs)) a =
           memory_process_all (map (\<lambda>(k, c). store_msg uid k c) rs) ?a1"
    using memory_store_step [OF Cons.prems, of uid k c] by (simp add: memory_process_all_def r)
  have d: "\<not> degraded_mode ?a1" using Cons.prems by simp
  show ?case
    unfolding s using Cons.IH [OF d] by (simp add: r stm_store_all_def)
qed

lemma records_of_own: "records_of uid (map (Pair uid) rs) = rs"
  by (induction rs) (simp_all add: records_of_def)

lemma memory_get_step:
  "\<not> degraded_mode a \<Longrightarrow>
   memory_handle_message (get_msg uid) a =
     (a\<lparr>get_context_count := get_context_count a + 1\<rparr>,
      Returned (Some (context_response (get_msg uid) False (stm_read (stm_buffer a) uid))))"
  by (simp add: memory_handle_message_def get_msg_def create_def empty_payload_def Let_def)

lemma memory_actor_keeps_last:
  "\<exists>r. snd (memory_handle_message (get_msg uid)
            (memory_process_all (map (\<lambda>(k, c). store_msg uid k c) rs) (new_memory_actor False)))
         = Returned (Some r) \<and>
       msg_type r = CONTEXT_RESPONSE \<and>
       pl_messages (msg_payload r) = Some (last_n STM_BUFFER_SIZE rs) \<and>
       pl_total_messages (msg_payload r) = Some (int (min (length rs) STM_BUFFER_SIZE))"
proof -
  let ?a = "memory_process_all (map (\<lambda>(k, c). store_msg uid k c) rs) (new_memory_actor False)"
  have n: "\<not> degraded_mode (new_memory_actor False)" by (simp add: new_memory_actor_def)
  have d: "\<not> degraded_mode ?a" using memory_store_run [OF n] by blast
  have "stm_buffer ?a = stm_store_all STM_BUFFER_SIZE (map (Pair uid) rs) stm_empty"
    using memory_store_run [OF n, of uid rs] by (simp add: new_memory_actor_def)
  then have b: "stm_read (stm_buffer ?a) uid = last_n STM_BUFFER_SIZE rs"
    using stm_store_all_key [of stm_empty uid STM_BUFFER_SIZE "map (Pair uid) rs"]
    by (simp add: stm_read_def stm_empty_def records_of_own)
  have l: "length (last_n STM_BUFFER_SIZE rs) = min (length rs) STM_BUFFER_SIZE"
    by (simp add: last_n_def)
  show ?thesis
    unfolding memory_get_step [OF d] b
    by (simp add: context_response_def create_def l)
qed

text \<open>
  Claim C4. For every key, the buffer read after any sequence of stores holds the last
  \<open>STM_BUFFER_SIZE\<close> records stored under that key, in arrival order; when more
  than \<open>STM_BUFFER_SIZE\<close> records were stored it holds exactly that many, the oldest
  ones having been evicted. The same is what the memory actor answers to GET\_CONTEXT
  after it has handled the STORE\_MEMORY messages of a user.
\<close>

theorem stm_buffer_keeps_last:
  "stm_read (stm_store_all STM_BUFFER_SIZE rs stm_empty) key =
     last_n STM_BUFFER_SIZE (records_of key rs) \<and>
   (length (records_of key rs) > STM_BUFFER_SIZE \<longrightarrow>
      length (stm_read (stm_store_all STM_BUFFER_SIZE rs stm_empty) key) = STM_BUFFER_SIZE \<and>
      stm_read (stm_store_all STM_BUFFER_SIZE rs stm_empty) key =
        drop (length (records_of key rs) - STM_BUFFER_SIZE) (records_of key rs)) \<and>
   (\<exists>r. snd (memory_handle_message (get_msg uid)
            (memory_process_all (map (\<lambda>(k, c). store_msg uid k c) cs) (new_memory_actor False)))
         = Returned (Some r) \<and>
       msg_type r = CONTEXT_RESPONSE \<and>
       pl_messages (msg_payload r) = Some (last_n STM_BUFFER_SIZE cs) \<and>
       pl_total_messages (msg_payload r) = Some (int (min (length cs) STM_BUFFER_SIZE)))"
  using stm_store_all_key [of stm_empty key STM_BUFFER_SIZE rs] memory_actor_keeps_last [of uid cs]
  by (simp add: stm_read_def stm_empty_def last_n_def)

text \<open>Storing the records 0 to 59 under one key leaves the records 10 to 59.\<close>

lemma records_of_sixty: "records_of ''test_user_buffer'' sixty_records = [0..<60]"
  by (simp add: records_of_def sixty_records_def filter_map comp_def map_idI)

theorem stm_buffer_keeps_last_witness:
  "length (records_of ''test_user_buffer'' sixty_records) > STM_BUFFER_SIZE \<and>
   length (stm_read (stm_store_all STM_BUFFER_SIZE sixty_records stm_empty) ''test_user_buffer'') = 50 \<and>
   stm_read (stm_store_all STM_BUFFER_SIZE sixty_records stm_empty) ''test_user_buffer'' = [10..<60]"
proof -
  let ?b = "stm_read (stm_store_all STM_BUFFER_SIZE sixty_records stm_empty) ''test_user_buffer''"
  have l: "length (records_of ''test_user_buffer'' sixty_records) > STM_BUFFER_SIZE"
    by (simp add: records_of_sixty STM_BUFFER_SIZE_def)
  have ln: "last_n 50 [0..<60] = [10..<60]"
    by (simp add: last_n_def)
  have "?b = last_n STM_BUFFER_SIZE (records_of ''test_user_buffer'' sixty_records)"
    using stm_buffer_keeps_last [of sixty_records "''test_user_buffer''"] by blast
  then have b: "?b = [10..<60]"
    by (simp only: records_of_sixty STM_BUFFER_SIZE_def ln)
  have "length ?b = 50" unfolding b by simp
  with l b show ?thesis by blast
qed

section \<open>Degraded mode of the memory actor\<close>

lemma degraded_store:
  "degraded_mode a \<Longrightarrow> msg_type m = STORE_MEMORY \<Longrightarrow>
   memory_handle_message m a =
     (a\<lparr>store_memory_count := store_memory_count a + 1,
         skipped_writes := skipped_writes a + 1\<rparr>, Returned None)"
  by (simp add: memory_handle_message_def Let_def)

lemma degraded_get:
  "degraded_mode a \<Longrightarrow> msg_type m = GET_CONTEXT \<Longrightarrow>
   memory_handle_message m a =
     (a\<lparr>get_context_count := get_context_count a + 1\<rparr>,
      Returned (Some (context_response m True [])))"
  by (simp add: memory_handle_message_def Let_def)

lemma degraded_step:
  "degraded_mode a \<Longrightarrow>
   degraded_mode (fst (memory_handle_message m a)) \<and>
   stm_buffer (fst (memory_handle_message m a)) = stm_buffer a \<and>
   (\<exists>r. snd (memory_handle_message m a) = Returned r)"
  by (simp add: memory_handle_message_def Let_def)

lemma degraded_run:
  "degraded_mode a \<Longrightarrow>
   degraded_mode (memory_process_all ms a) \<and> stm_buffer (memory_process_all ms a) = stm_buffer a"
proof (induction ms arbitrary: a)
  case Nil
  then show ?case by (simp add: memory_process_all_def)
next
  case (Cons m ms)
  have "memory_process_all (m # ms) a = memory_process_all ms (fst (memory_handle_message m a))"
    by (simp add: memory_process_all_def)
  then show ?case
    using Cons.IH [of "fst (memory_handle_message m a)"] degraded_step [OF Cons.prems, of m]
    by simp
qed

text \<open>
  Claim C5. In degraded mode the memory actor handles STORE\_MEMORY without raising and
  without persisting anything (the write is counted as skipped), and answers
  GET\_CONTEXT with a CONTEXT\_RESPONSE whose payload has \<open>degraded_mode\<close> true and
  an empty \<open>context\<close>; no message makes the handler raise, and after any sequence of
  messages the buffer is as it was.
\<close>

theorem degraded_mode_keeps_serving:
  "degraded_mode a \<Longrightarrow>
   (msg_type m = STORE_MEMORY \<longrightarrow>
      memory_handle_message m a =
        (a\<lparr>store_memory_count := store_memory_count a + 1,
            skipped_writes := skipped_writes a + 1\<rparr>, Returned None)) \<and>
   (msg_type m = GET_CONTEXT \<longrightarrow>
      (\<exists>r. memory_handle_message m a =
              (a\<lparr>get_context_count := get_context_count a + 1\<rparr>, Returned (Some r)) \<and>
           msg_type r = CONTEXT_RESPONSE \<and>
           pl_degraded_mode (msg_payload r) = Some True \<and>
           pl_context (msg_payload r) = Some [])) \<and>
   (\<exists>r. snd (memory_handle_message m a) = Returned r) \<and>
   stm_buffer (fst (memory_handle_message m a)) = stm_buffer a \<and>
   degraded_mode (memory_process_all ms a) \<and>
   stm_buffer (memory_process_all ms a) = stm_buffer a"
  using degraded_store [of a m] degraded_get [of a m] degraded_step [of a m] degraded_run [of a ms]
  by (auto simp: context_response_def create_def)

theorem degraded_mode_keeps_serving_witness:
  "degraded_mode (new_memory_actor True) \<and>
   msg_type (store_msg ''test_user'' ''user'' ''Test message'') = STORE_MEMORY \<and>
   msg_type (get_msg ''test_user'') = GET_CONTEXT \<and>
   snd (memory_handle_message (store_msg ''test_user'' ''user'' ''Test message'')
          (new_memory_actor True)) = Returned None \<and>
   stm_buffer (fst (memory_handle_message (store_msg ''test_user'' ''user'' ''Test message'')
          (new_memory_actor True))) ''test_user'' = [] \<and>
   (\<exists>r. snd (memory_handle_message (get_msg ''test_user'') (new_memory_actor True))
           = Returned (Some r) \<and>
        pl_degraded_mode (msg_payload r) = Some True \<and> pl_context (msg_payload r) = Some [])"
proof -
  let ?a = "new_memory_actor True"
  have d: "degraded_mode ?a" by (simp add: new_memory_actor_def)
  have t1: "msg_type (store_msg ''test_user'' ''user'' ''Test message'') = STORE_MEMORY"
    by (simp add: store_msg_def create_def)
  have t2: "msg_type (get_msg ''test_user'') = GET_CONTEXT"
    by (simp add: get_msg_def create_def)
  have b: "stm_buffer ?a ''test_user'' = []"
    by (simp add: new_memory_actor_def stm_empty_def)
  show ?thesis
    using degraded_mode_keeps_serving [OF d, of "store_msg ''test_user'' ''user'' ''Test message''" "[]"]
      degraded_mode_keeps_serving [OF d, of "get_msg ''test_user''" "[]"] d t1 t2 b
    by auto
qed

section \<open>Message types at dispatch\<close>








section \<open>Optimistic concurrency of the event store\<close>

text \<open>
  Claim C7. For every stream, the append succeeds if and only if the stream's current
  version equals the expected version; then exactly the one event is added at the end of
  that stream, with the next version, and no other stream changes. On a mismatch the
  call fails with \<open>EventStoreConcurrencyError\<close> carrying the expected and the actual
  version and the store is left as it was.
\<close>

theorem append_stream_optimistic:
  "((\<exists>store' v. append_stream stream_id e expected store = (store', Inr v)) =
      (current_version store stream_id = expected)) \<and>
   (current_version store stream_id = expected \<longrightarrow>
      (\<exists>store'. append_stream stream_id e expected store = (store', Inr (expected + 1)) \<and>
         get_stream store' stream_id =
           get_stream store stream_id @ [e\<lparr>ev_version := expected + 1\<rparr>] \<and>
         current_version store' stream_id = expected + 1 \<and>
         (\<forall>other. other \<noteq> stream_id \<longrightarrow> get_stream store' other = get_stream store other))) \<and>
   (current_version store stream_id \<noteq> expected \<longrightarrow>
      append_stream stream_id e expected store =
        (store, Inl (EventStoreConcurrencyError expected (current_version store stream_id))))"
  by (auto simp: append_stream_def Let_def get_stream_def current_version_def)

theorem append_stream_optimistic_witness:
  "current_version empty_store ''s'' = 0 \<and>
   fst (append_stream ''s'' (sample_event ''s'' ''A'') 0 empty_store) ''s''
     = [(sample_event ''s'' ''A'')\<lparr>ev_version := 1\<rparr>] \<and>
   current_version (fst (append_stream ''s'' (sample_event ''s'' ''A'') 0 empty_store)) ''s'' \<noteq> 0 \<and>
   append_stream ''s'' (sample_event ''s'' ''B'') 0
       (fst (append_stream ''s'' (sample_event ''s'' ''A'') 0 empty_store)) =
     (fst (append_stream ''s'' (sample_event ''s'' ''A'') 0 empty_store),
      Inl (EventStoreConcurrencyError 0 1))"
proof -
  let ?s1 = "fst (append_stream ''s'' (sample_event ''s'' ''A'') 0 empty_store)"
  have v0: "current_version empty_store ''s'' = 0"
    by (simp add: current_version_def empty_store_def)
  have s1: "?s1 ''s'' = [(sample_event ''s'' ''A'')\<lparr>ev_version := 1\<rparr>]"
    using append_stream_optimistic [of "''s''" "sample_event ''s'' ''A''" 0 empty_store] v0
    by (auto simp: get_stream_def empty_store_def)
  then have v1: "current_version ?s1 ''s'' = 1" by (simp add: current_version_def)
  show ?thesis
    using append_stream_optimistic [of "''s''" "sample_event ''s'' ''B''" 0 ?s1] v0 s1 v1
    by simp
qed

section \<open>The loops\<close>

lemma pop_expired_not_cancelled:
  "pop_expired ids st = (st', Raised e) \<Longrightarrow> e \<noteq> CancelledError"
proof (induction ids arbitrary: st)
  case Nil
  then show ?case by simp
next
  case (Cons k ids)
  then show ?case
    by (cases "map_of (pending_requests st) k") (auto simp: Let_def)
qed

lemma cleanup_not_cancelled:
  "cleanup_expired_requests t st = (st', Raised e) \<Longrightarrow> e \<noteq> CancelledError"
  unfolding cleanup_expired_requests_def by (rule pop_expired_not_cancelled)

lemma cleanup_loop_slept:
  "\<exists>st1. cleanup_pending_requests_loop ((True, Slept t) # rest) st
        = cleanup_pending_requests_loop rest st1"
proof -
  obtain st' out where c: "cleanup_expired_requests t st = (st', out)"
    by (cases "cleanup_expired_requests t st")
  show ?thesis
  proof (cases out)
    case (Returned u)
    then show ?thesis using c by auto
  next
    case (Raised e)
    then have "e \<noteq> CancelledError" using c cleanup_not_cancelled by blast
    then show ?thesis using c Raised by (cases e) auto
  qed
qed

lemma cleanup_loop_status:
  "snd (cleanup_pending_requests_loop its st) =
     (case find (\<lambda>(is_running, b). \<not> is_running \<or> b = Cancelled) its of
        None \<Rightarrow> Looping
      | Some (is_running, b) \<Rightarrow>
          if \<not> is_running then Stopped_not_running else Stopped_cancelled)"
proof (induction its arbitrary: st)
  case Nil
  then show ?case by simp
next
  case (Cons it its)
  obtain r b where it: "it = (r, b)" by (cases it)
  show ?case
  proof (cases r)
    case False
    then show ?thesis by (simp add: it)
  next
    case True
    show ?thesis
    proof (cases b)
      case (Slept t)
      obtain st1 where "cleanup_pending_requests_loop ((True, Slept t) # its) st
          = cleanup_pending_requests_loop its st1"
        using cleanup_loop_slept by blast
      then show ?thesis using Cons.IH [of st1] by (simp add: it True Slept)
    next
      case Cancelled
      then show ?thesis by (simp add: it True)
    next
      case (Failed e)
      then show ?thesis using Cons.IH by (simp add: it True)
    qed
  qed
qed

lemma message_loop_status:
  "snd (message_loop ds st) =
     (case find (\<lambda>(is_running, d). \<not> is_running \<or> d = Cancel) ds of
        None \<Rightarrow> Looping
      | Some (is_running, d) \<Rightarrow>
          if \<not> is_running then Stopped_not_running else Stopped_cancelled)"
proof (induction ds arbitrary: st)
  case Nil
  then show ?case by simp
next
  case (Cons it ds)
  obtain r d where it: "it = (r, d)" by (cases it)
  show ?case
  proof (cases r)
    case False
    then show ?thesis by (simp add: it)
  next
    case True
    show ?thesis
    proof (cases d)
      case (Deliver ev m)
      obtain st' out where h: "handle_message ev m st = (st', out)"
        by (cases "handle_message ev m st")
      show ?thesis
        using Cons.IH by (cases out) (simp_all add: it True Deliver h)
    next
      case Cancel
      then show ?thesis by (simp add: it True)
    qed
  qed
qed

lemma cleanup_loop_failures:
  "cleanup_pending_requests_loop (map (\<lambda>e. (True, Failed e)) es) st =
     (st\<lparr>logged := logged st @ map (\<lambda>e. Error ''Error in cleanup loop'') es\<rparr>, Looping)"
  by (induction es arbitrary: st) (simp_all add: log_call_def)

text \<open>
  Claim C8. The cleanup loop of the user-session actor ends at the first iteration that
  finds \<open>is_running\<close> false or whose body is cancelled, and at no other: an
  iteration whose body raises any other exception logs the error and is followed by the
  next iteration, so a run in which every iteration finds the actor running and none is
  cancelled is still looping at its end. The same holds for the message loop: a message
  whose handler raises is followed by the next mailbox entry.
\<close>

theorem loops_stop_only_on_shutdown:
  "snd (cleanup_pending_requests_loop its st) =
     (case find (\<lambda>(is_running, b). \<not> is_running \<or> b = Cancelled) its of
        None \<Rightarrow> Looping
      | Some (is_running, b) \<Rightarrow>
          if \<not> is_running then Stopped_not_running else Stopped_cancelled) \<and>
   ((\<forall>it \<in> set its. fst it \<and> snd it \<noteq> Cancelled) \<longrightarrow>
      snd (cleanup_pending_requests_loop its st) = Looping) \<and>
   cleanup_pending_requests_loop (map (\<lambda>e. (True, Failed e)) es) st =
     (st\<lparr>logged := logged st @ map (\<lambda>e. Error ''Error in cleanup loop'') es\<rparr>, Looping) \<and>
   snd (message_loop ds st) =
     (case find (\<lambda>(is_running, d). \<not> is_running \<or> d = Cancel) ds of
        None \<Rightarrow> Looping
      | Some (is_running, d) \<Rightarrow>
          if \<not> is_running then Stopped_not_running else Stopped_cancelled) \<and>
   ((\<forall>it \<in> set ds. fst it \<and> snd it \<noteq> Cancel) \<longrightarrow> snd (message_loop ds st) = Looping)"
proof -
  have a: "(\<forall>it \<in> set its. fst it \<and> snd it \<noteq> Cancelled) \<longrightarrow>
      find (\<lambda>(is_running, b). \<not> is_running \<or> b = Cancelled) its = None"
    by (auto simp: find_None_iff)
  have b: "(\<forall>it \<in> set ds. fst it \<and> snd it \<noteq> Cancel) \<longrightarrow>
      find (\<lambda>(is_running, d). \<not> is_running \<or> d = Cancel) ds = None"
    by (auto simp: find_None_iff)
  show ?thesis
    using a b cleanup_loop_failures [of es st]
    unfolding cleanup_loop_status [of its st] message_loop_status [of ds st]
    by simp
qed

theorem loops_stop_only_on_shutdown_witness:
  "list_all (\<lambda>it. fst it \<and> snd it \<noteq> Cancelled) sample_iterations \<and>
   snd (cleanup_pending_requests_loop sample_iterations
          (state_with_pending True [(''a'', sample_entry ''u'' 0)])) = Looping \<and>
   snd (cleanup_pending_requests_loop (sample_iterations @ [(True, Cancelled), (True, Slept 5)])
          (state_with_pending True [(''a'', sample_entry ''u'' 0)])) = Stopped_cancelled \<and>
   snd (cleanup_pending_requests_loop (sample_iterations @ [(False, Slept 5)])
          (state_with_pending True [(''a'', sample_entry ''u'' 0)])) = Stopped_not_running \<and>
   snd (message_loop [(True, Deliver (sample_env 1 ''r1'' ''talk'') (context_reply None [])),
                      (True, Deliver (sample_env 2 ''r2'' ''talk'')
                         (create ''test'' USER_MESSAGE empty_payload None))]
          (initial_state True)) = Looping"
proof -
  let ?st = "state_with_pending True [(''a'', sample_entry ''u'' 0)]"
  have h: "\<forall>it \<in> set sample_iterations. fst it \<and> snd it \<noteq> Cancelled"
    by (simp add: sample_iterations_def)
  show ?thesis
    using loops_stop_only_on_shutdown [where its = sample_iterations and st = ?st
          and es = "[]" and ds = "[]"]
      loops_stop_only_on_shutdown [where st = ?st and es = "[]" and ds = "[]"
          and its = "sample_iterations @ [(True, Cancelled), (True, Slept 5)]"]
      loops_stop_only_on_shutdown [where st = ?st and es = "[]" and ds = "[]"
          and its = "sample_iterations @ [(False, Slept 5)]"]
      loops_stop_only_on_shutdown [where st = "initial_state True" and es = "[]" and its = "[]"
          and ds = "[(True, Deliver (sample_env 1 ''r1'' ''talk'') (context_reply None [])),
                     (True, Deliver (sample_env 2 ''r2'' ''talk'')
                        (create ''test'' USER_MESSAGE empty_payload None))]"]
      h
    by (simp add: sample_iterations_def list_all_iff)
qed

end
